theory Spec2Isabelle
  imports Main "HOL-Library.Word" "HOL-Library.AList"
begin

section \<open>Data model\<close>

text \<open>
  The broker is the single module \<^verbatim>\<open>src/index.js\<close>. Its callbacks run one at a time on
  the event loop, so every function of the module is a function on an explicit state,
  and what the runtime does between callbacks (a request arrives, a request body ends,
  a fetch is fulfilled, a peer closes, a socket times out, a signal arrives) is an event.

  A JavaScript string is a sequence of UTF-16 code units and \<^verbatim>\<open>.length\<close> counts them.
  HTTP method and path tokens, header names and identifier names are ASCII and are kept
  as \<^typ>\<open>string\<close>.
\<close>

type_synonym jsstring = "16 word list"

definition utf16 :: "string \<Rightarrow> jsstring" where
  "utf16 s = map (\<lambda>c. of_nat (of_char c)) s"

text \<open>
  A request and its response object share one identity; the socket of the request is
  identified with it as well (one request per socket).
\<close>

type_synonym conn = nat

datatype error =
    ReferenceError string
  | TypeError string
  | ERR_HTTP_HEADERS_SENT
  | ERR_INVALID_ARG_TYPE string

text \<open>
  How a statement ends: it completes normally, it executes \<^verbatim>\<open>return\<close>, or it throws.
  The state reached is kept in each case: what was done before a \<^verbatim>\<open>throw\<close> stays done.
\<close>

datatype 's completion = Normal 's | Return 's | Throw error 's

fun andThen :: "'s completion \<Rightarrow> ('s \<Rightarrow> 's completion) \<Rightarrow> 's completion" where
  "andThen (Normal s) f = f s"
| "andThen (Return s) f = Return s"
| "andThen (Throw e s) f = Throw e s"

text \<open>A function call: a \<^verbatim>\<open>return\<close> of the callee is a normal completion of the call.\<close>

fun call :: "'s completion \<Rightarrow> 's completion" where
  "call (Normal s) = Normal s"
| "call (Return s) = Normal s"
| "call (Throw e s) = Throw e s"

fun stateOf :: "'s completion \<Rightarrow> 's" where
  "stateOf (Normal s) = s"
| "stateOf (Return s) = s"
| "stateOf (Throw e s) = s"

fun thrown :: "'s completion \<Rightarrow> error option" where
  "thrown (Normal s) = None"
| "thrown (Return s) = None"
| "thrown (Throw e s) = Some e"

subsection \<open>Identifiers\<close>

text \<open>
  Reading an identifier that no enclosing scope declares throws a ReferenceError. The
  names below are the declarations of the module, in source order, and the globals it
  uses. \<open>ident scope name v\<close> is the value \<open>v\<close> bound to \<open>name\<close> when \<open>scope\<close> declares the
  name, and the ReferenceError otherwise.
\<close>

definition module_scope :: "string list" where
  "module_scope =
    [''http'', ''url'', ''process'', ''fetch'',
     ''port'', ''subscriptionKey'', ''publishKey'', ''PLC_GetDataKey'', ''PLC_GetSetDataKey'',
     ''getPLCGetDataEndpoint'', ''getPLCGetSetDataEndpoint'', ''subscriberTimeout'',
     ''subscribers'',
     ''handleRequest'', ''handleSubscribeRequest'', ''handlePublishRequest'', ''saveSubscriber'',
     ''GetDeviceData'', ''GetSetDeviceData'', ''parseDatabaseResponse'',
     ''sendDataToSubscribers'', ''gracefullyShutdown'',
     ''console'', ''setTimeout'', ''Object'']"

definition handleRequest_scope :: "string list" where
  "handleRequest_scope = [''req'', ''res'', ''parsedUrl'', ''deviceId'', ''code''] @ module_scope"

definition handleSubscribeRequest_scope :: "string list" where
  "handleSubscribeRequest_scope = [''req'', ''res'', ''deviceId'', ''message''] @ module_scope"

definition handlePublishRequest_scope :: "string list" where
  "handlePublishRequest_scope = [''req'', ''res'', ''subscriberCount''] @ module_scope"

definition ident :: "string list \<Rightarrow> string \<Rightarrow> 'v \<Rightarrow> error + 'v" where
  "ident scope name v = (if name \<in> set scope then Inr v else Inl (ReferenceError name))"

subsection \<open>Query parameters and requests\<close>

text \<open>
  \<^verbatim>\<open>url.parse(req.url, true)\<close> is the library's: the model takes its result. The field
  \<open>req_method\<close> is \<^verbatim>\<open>req.method\<close>. A query
  parameter is absent, a string, or an array of strings when the parameter is repeated.
\<close>

datatype qval = QStr jsstring | QArr "jsstring list"

fun truthy :: "qval option \<Rightarrow> bool" where
  "truthy None = False"
| "truthy (Some (QStr v)) = (v \<noteq> [])"
| "truthy (Some (QArr vs)) = True"

fun join_comma :: "jsstring list \<Rightarrow> jsstring" where
  "join_comma [] = []"
| "join_comma [v] = v"
| "join_comma (v # w # ws) = v @ 0x2C # join_comma (w # ws)"

text \<open>The property key a value stands for in \<^verbatim>\<open>subscribers[deviceId]\<close>.\<close>

fun propertyKey :: "qval \<Rightarrow> jsstring" where
  "propertyKey (QStr v) = v"
| "propertyKey (QArr vs) = join_comma vs"

record request =
  req_method :: string
  pathname :: string
  query_ping :: "qval option"
  query_device :: "qval option"
  query_code :: "qval option"

subsection \<open>Responses\<close>

text \<open>
  A \<^verbatim>\<open>ServerResponse\<close>: the status code and headers set so far, how often \<^verbatim>\<open>end\<close> was
  called, and two views of the reply. \<open>sent\<close> is the reply as the server finished it: the
  first \<^verbatim>\<open>end\<close> fixes the head, with the status code and headers of that moment, and the
  body given, and hands them to the socket; a later \<^verbatim>\<open>end\<close> changes nothing and does not
  throw. \<open>received\<close> is what the requester got of it: the same when the socket was alive
  at the first \<^verbatim>\<open>end\<close>, nothing when the socket was destroyed by then. \<^verbatim>\<open>setHeader\<close> after the
  head was fixed throws.
\<close>

record wire =
  status :: nat
  hdrs :: "(string \<times> string) list"
  content :: jsstring

record response =
  statusCode :: nat
  headers :: "(string \<times> string) list"
  sent :: "wire option"
  received :: "wire option"
  endCalls :: nat

definition freshResponse :: response where
  "freshResponse = \<lparr>statusCode = 200, headers = [], sent = None, received = None, endCalls = 0\<rparr>"

definition res_end :: "jsstring \<Rightarrow> bool \<Rightarrow> response \<Rightarrow> response" where
  "res_end data alive r =
     r\<lparr>sent := (case sent r of
                  None \<Rightarrow> Some \<lparr>status = statusCode r, hdrs = headers r, content = data\<rparr>
                | Some w \<Rightarrow> Some w),
       received := (case sent r of
                      None \<Rightarrow> if alive
                               then Some \<lparr>status = statusCode r, hdrs = headers r, content = data\<rparr>
                               else received r
                    | Some w \<Rightarrow> received r),
       endCalls := Suc (endCalls r)\<rparr>"

subsection \<open>The state of the module\<close>

datatype fetch_call = PLC_GetData qval | PLC_GetSetData qval jsstring

datatype callback =
    Callback_parseDatabaseResponse conn qval
  | Callback_sendDataToSubscribers qval
  | Callback_named string

text \<open>
  \<open>subscribers\<close> is the object of line 24, as the list of its own properties in insertion
  order. \<open>closeListeners\<close>, \<open>socketTimeouts\<close> and \<open>bodyListeners\<close> are the callbacks
  registered with \<^verbatim>\<open>req.on('close')\<close>, \<^verbatim>\<open>req.socket.setTimeout\<close> and \<^verbatim>\<open>req.on('end')\<close>;
  \<open>destroyedSockets\<close> are the sockets that were destroyed; \<open>pending\<close> are the promises of the
  fetches issued and not yet settled, each with the callback attached by \<^verbatim>\<open>then\<close>, if any;
  \<open>errorLog\<close> is what \<^verbatim>\<open>console.error\<close> received in the catch block; \<open>exitTimers\<close> counts the
  \<^verbatim>\<open>setTimeout(process.exit, 1000)\<close> calls.
\<close>

record state =
  subscribers :: "(jsstring \<times> conn list) list"
  responses :: "conn \<Rightarrow> response"
  closeListeners :: "(conn \<times> qval) list"
  socketTimeouts :: "conn list"
  destroyedSockets :: "conn list"
  bodyListeners :: "(conn \<times> qval) list"
  pending :: "(fetch_call \<times> callback option) list"
  errorLog :: "error list"
  exitTimers :: nat

definition initialState :: state where
  "initialState =
     \<lparr>subscribers = [], responses = (\<lambda>_. freshResponse), closeListeners = [],
      socketTimeouts = [], destroyedSockets = [], bodyListeners = [], pending = [],
      errorLog = [], exitTimers = 0\<rparr>"

definition endResponse :: "conn \<Rightarrow> jsstring \<Rightarrow> state \<Rightarrow> state" where
  "endResponse res data s =
     s\<lparr>responses := (responses s)
          (res := res_end data (res \<notin> set (destroyedSockets s)) (responses s res))\<rparr>"

definition setStatusCode :: "conn \<Rightarrow> nat \<Rightarrow> state \<Rightarrow> state" where
  "setStatusCode res n s =
     s\<lparr>responses := (responses s)(res := (responses s res)\<lparr>statusCode := n\<rparr>)\<rparr>"

definition setHeader :: "conn \<Rightarrow> string \<Rightarrow> string \<Rightarrow> state \<Rightarrow> state completion" where
  "setHeader res name v s =
     (if sent (responses s res) \<noteq> None then Throw ERR_HTTP_HEADERS_SENT s
      else Normal (s\<lparr>responses := (responses s)
             (res := (responses s res)\<lparr>headers := AList.update name v (headers (responses s res))\<rparr>)\<rparr>))"

text \<open>
  \<open>subscribers\<close> is a plain object: reading \<^verbatim>\<open>subscribers[deviceId]\<close> finds an own property
  first and then the properties every object inherits, which are functions, or the
  prototype itself for \<^verbatim>\<open>__proto__\<close>: truthy values that are no arrays. The module never
  gives \<open>subscribers\<close> an own property of such a name (both writers throw before).
\<close>

definition inheritedProperties :: "jsstring list" where
  "inheritedProperties =
     map utf16
       [''constructor'', ''__defineGetter__'', ''__defineSetter__'', ''hasOwnProperty'',
        ''__lookupGetter__'', ''__lookupSetter__'', ''isPrototypeOf'', ''propertyIsEnumerable'',
        ''toString'', ''valueOf'', ''__proto__'', ''toLocaleString'']"

datatype property = Undefined | Inherited | Array "conn list"

definition subscribersAt :: "state \<Rightarrow> jsstring \<Rightarrow> property" where
  "subscribersAt s k =
     (case map_of (subscribers s) k of
        Some rs \<Rightarrow> Array rs
      | None \<Rightarrow> if k \<in> set inheritedProperties then Inherited else Undefined)"

text \<open>The connections held for an identifier: the array that is its own property, if any.\<close>

definition held :: "state \<Rightarrow> qval \<Rightarrow> conn list" where
  "held s deviceId =
     (case map_of (subscribers s) (propertyKey deviceId) of None \<Rightarrow> [] | Some rs \<Rightarrow> rs)"

text \<open>
  Line 130: \<^verbatim>\<open>Object.keys(subscribers[deviceId] || {}).length\<close>. An inherited function, like
  the empty object, has no enumerable key of its own.
\<close>

definition subscriberCount :: "state \<Rightarrow> qval \<Rightarrow> nat" where
  "subscriberCount s deviceId =
     length (case map_of (subscribers s) (propertyKey deviceId) of None \<Rightarrow> [] | Some rs \<Rightarrow> rs)"

section \<open>Configuration\<close>

text \<open>
  Lines 6 to 13: \<^verbatim>\<open>process.env.X || default\<close>. An unset variable is undefined and an
  empty one is the empty string; both are falsy. A variable that is set is a string, so
  \<open>subscriberTimeout\<close> is the number 600000 only when \<^verbatim>\<open>SUBSCRIBER_TIMEOUT\<close> is not set.
\<close>

record env =
  PORT :: "jsstring option"
  SUBSCRIPTION_KEY :: "jsstring option"
  PUBLISH_KEY :: "jsstring option"
  PLC_GET_DATA_KEY :: "jsstring option"
  PLC_GET_SET_DATA_KEY :: "jsstring option"
  SUBSCRIBER_TIMEOUT :: "jsstring option"

fun orDefault :: "jsstring option \<Rightarrow> jsstring \<Rightarrow> jsstring" where
  "orDefault None d = d"
| "orDefault (Some v) d = (if v = [] then d else v)"


definition subscriptionKey :: "env \<Rightarrow> jsstring" where
  "subscriptionKey e = orDefault (SUBSCRIPTION_KEY e) (utf16 ''test-subscription-key'')"

definition publishKey :: "env \<Rightarrow> jsstring" where
  "publishKey e = orDefault (PUBLISH_KEY e) (utf16 ''test-publish-key'')"



datatype timeoutValue = Millis nat | Text jsstring

definition subscriberTimeout :: "env \<Rightarrow> timeoutValue" where
  "subscriberTimeout e =
     (case SUBSCRIBER_TIMEOUT e of
        None \<Rightarrow> Millis 600000
      | Some v \<Rightarrow> if v = [] then Millis 600000 else Text v)"

section \<open>The subscriber registry and the delivery engine\<close>

text \<open>
  \<^verbatim>\<open>socket.setTimeout(msecs, callback)\<close> returns at once on a destroyed socket; otherwise it
  throws unless \<open>msecs\<close> is a number, and for a number other than 0 it arms the timer and
  adds the callback as a one-time listener of the timeout event of the socket.
\<close>

definition socketSetTimeout :: "timeoutValue \<Rightarrow> conn \<Rightarrow> state \<Rightarrow> state completion" where
  "socketSetTimeout msecs sock s =
     (if sock \<in> set (destroyedSockets s) then Normal s
      else case msecs of
             Text v \<Rightarrow> Throw (ERR_INVALID_ARG_TYPE ''msecs'') s
           | Millis n \<Rightarrow>
               if n = 0 then Normal s
               else Normal (s\<lparr>socketTimeouts := socketTimeouts s @ [sock]\<rparr>))"

text \<open>
  Lines 146 to 166. The array is created when \<^verbatim>\<open>subscribers[deviceId]\<close> is falsy; the
  response is pushed, which throws when what is found there is no array; a close listener
  is registered on the request and a timeout callback on its socket.
\<close>

definition saveSubscriber :: "env \<Rightarrow> conn \<Rightarrow> qval \<Rightarrow> state \<Rightarrow> state completion" where
  "saveSubscriber e res deviceId s =
     (let k = propertyKey deviceId;
          found = subscribersAt s k
      in if found = Inherited then Throw (TypeError ''push'') s
         else
           let arr = (case found of Array rs \<Rightarrow> rs | Undefined \<Rightarrow> [] | Inherited \<Rightarrow> []);
               s1 = s\<lparr>subscribers := AList.update k (arr @ [res]) (subscribers s),
                      closeListeners := closeListeners s @ [(res, deviceId)]\<rparr>
           in socketSetTimeout (subscriberTimeout e) res s1)"

text \<open>
  Lines 196 to 206: when \<^verbatim>\<open>subscribers[deviceId]\<close> is truthy every response of it is ended
  with the data, which throws when what is found there is no array; then the array is
  reset.
\<close>

definition sendDataToSubscribers :: "qval \<Rightarrow> jsstring \<Rightarrow> state \<Rightarrow> state completion" where
  "sendDataToSubscribers deviceId data s =
     (let k = propertyKey deviceId
      in case subscribersAt s k of
           Inherited \<Rightarrow> Throw (TypeError ''forEach'') s
         | Undefined \<Rightarrow> Normal (s\<lparr>subscribers := AList.update k [] (subscribers s)\<rparr>)
         | Array rs \<Rightarrow>
             (let s1 = foldl (\<lambda>t res. endResponse res data t) s rs
              in Normal (s1\<lparr>subscribers := AList.update k [] (subscribers s1)\<rparr>)))"

text \<open>Lines 182 to 194.\<close>

definition parseDatabaseResponse ::
  "env \<Rightarrow> conn \<Rightarrow> qval \<Rightarrow> jsstring \<Rightarrow> state \<Rightarrow> state completion" where
  "parseDatabaseResponse e res deviceId data s =
     (if length data \<le> 2 then saveSubscriber e res deviceId s
      else andThen (sendDataToSubscribers deviceId data s)
             (\<lambda>t. Normal (endResponse res data t)))"

text \<open>
  The close listener of lines 156 to 159, and the \<^verbatim>\<open>close\<close> event of a request, taken as
  the closing of its connection: the socket is destroyed, which clears its timer, and
  every listener registered on the request runs.
\<close>

definition closeListener :: "conn \<Rightarrow> qval \<Rightarrow> state \<Rightarrow> state completion" where
  "closeListener res deviceId s =
     (let k = propertyKey deviceId
      in case map_of (subscribers s) k of
           None \<Rightarrow> Throw (TypeError ''filter'') s
         | Some rs \<Rightarrow>
             Normal (s\<lparr>subscribers :=
               AList.update k (filter (\<lambda>subscriber. subscriber \<noteq> res) rs) (subscribers s)\<rparr>))"

fun runCloseListeners :: "(conn \<times> qval) list \<Rightarrow> conn \<Rightarrow> state \<Rightarrow> state completion" where
  "runCloseListeners [] req s = Normal s"
| "runCloseListeners ((res, deviceId) # ls) req s =
     (if res = req then andThen (closeListener res deviceId s) (runCloseListeners ls req)
      else runCloseListeners ls req s)"

definition closeEvent :: "conn \<Rightarrow> state \<Rightarrow> state completion" where
  "closeEvent req s =
     (let s0 = s\<lparr>destroyedSockets := List.insert req (destroyedSockets s),
                   socketTimeouts := filter (\<lambda>sock. sock \<noteq> req) (socketTimeouts s)\<rparr>
      in runCloseListeners (closeListeners s0) req s0)"

text \<open>
  The close listener reads \<^verbatim>\<open>subscribers[deviceId].filter\<close>: it throws nothing as long as the
  identifier of every listener registered has an array.
\<close>

definition listenersBacked :: "state \<Rightarrow> bool" where
  "listenersBacked s =
     (\<forall>(r, d) \<in> set (closeListeners s). map_of (subscribers s) (propertyKey d) \<noteq> None)"

text \<open>
  The timeout of a socket. A destroyed socket has no timer. The module puts no timeout
  listener on the request, the response or the server, so the server destroys the socket
  that times out; the callbacks given to \<^verbatim>\<open>socket.setTimeout\<close>, one-time listeners
  registered after the server's own, run next and are dropped. The callback of lines 162
  to 165 ends the response with no data.
\<close>

definition timeoutEvent :: "conn \<Rightarrow> state \<Rightarrow> state" where
  "timeoutEvent sock s =
     (if sock \<in> set (destroyedSockets s) then s
      else
        let s0 = s\<lparr>destroyedSockets := destroyedSockets s @ [sock]\<rparr>;
            s1 = foldl (\<lambda>t res. endResponse res [] t) s0
                   (filter (\<lambda>res. res = sock) (socketTimeouts s0))
        in s1\<lparr>socketTimeouts := filter (\<lambda>res. res \<noteq> sock) (socketTimeouts s1)\<rparr>)"

section \<open>The lifecycle controller\<close>

text \<open>
  Lines 208 to 218. The loop visits the own properties of \<open>subscribers\<close>, reads
  \<^verbatim>\<open>subscribers[deviceId]\<close> for each and ends every response of it with no data; then the
  exit is scheduled.
\<close>

fun shutdownLoop :: "jsstring list \<Rightarrow> state \<Rightarrow> state completion" where
  "shutdownLoop [] s = Normal s"
| "shutdownLoop (k # ks) s =
     (case map_of (subscribers s) k of
        None \<Rightarrow> Throw (TypeError ''forEach'') s
      | Some rs \<Rightarrow> shutdownLoop ks (foldl (\<lambda>t res. endResponse res [] t) s rs))"

definition gracefullyShutdown :: "state \<Rightarrow> state completion" where
  "gracefullyShutdown s =
     andThen (shutdownLoop (map fst (subscribers s)) s)
       (\<lambda>t. Normal (t\<lparr>exitTimers := Suc (exitTimers t)\<rparr>))"

text \<open>Every response the loop reaches, in the order of the loop.\<close>

definition allHeld :: "state \<Rightarrow> conn list" where
  "allHeld s = concat (map (\<lambda>k. case map_of (subscribers s) k of None \<Rightarrow> [] | Some rs \<Rightarrow> rs)
                 (map fst (subscribers s)))"

section \<open>The request router\<close>

text \<open>
  \<^verbatim>\<open>GetDeviceData\<close> and \<^verbatim>\<open>GetSetDeviceData\<close> (lines 168 to 176) issue the fetch and return
  its promise: the call is recorded as pending, with no callback attached yet.
\<close>

definition GetDeviceData :: "qval \<Rightarrow> state \<Rightarrow> state" where
  "GetDeviceData deviceId s = s\<lparr>pending := pending s @ [(PLC_GetData deviceId, None)]\<rparr>"

definition GetSetDeviceData :: "qval \<Rightarrow> jsstring \<Rightarrow> state \<Rightarrow> state" where
  "GetSetDeviceData deviceId body s =
     s\<lparr>pending := pending s @ [(PLC_GetSetData deviceId body, None)]\<rparr>"

text \<open>\<^verbatim>\<open>.then(cb)\<close> on the promise just returned, which is the last one pending.\<close>

definition thenCallback :: "callback \<Rightarrow> state \<Rightarrow> state" where
  "thenCallback cb s =
     (case pending s of
        [] \<Rightarrow> s
      | _ # _ \<Rightarrow> s\<lparr>pending := butlast (pending s) @ [(fst (last (pending s)), Some cb)]\<rparr>)"

text \<open>
  Lines 100 to 126. For POST the listeners that collect the body are registered and the
  function returns. For GET the callee \<^verbatim>\<open>GetDeviceData(deviceId).then\<close> is evaluated
  first, which issues the fetch, and the argument \<^verbatim>\<open>parseFunctionResponse\<close> after it.
\<close>

definition handleSubscribeRequest :: "request \<Rightarrow> conn \<Rightarrow> qval \<Rightarrow> state \<Rightarrow> state completion" where
  "handleSubscribeRequest req res deviceId s =
     (if req_method req = ''POST''
      then Return (s\<lparr>bodyListeners := bodyListeners s @ [(res, deviceId)]\<rparr>)
      else if req_method req = ''GET''
      then (let s1 = GetDeviceData deviceId s
            in case ident handleSubscribeRequest_scope ''parseFunctionResponse''
                      (Callback_named ''parseFunctionResponse'') of
                 Inl e \<Rightarrow> Throw e s1
               | Inr cb \<Rightarrow> Return (thenCallback cb s1))
      else Normal s)"

text \<open>
  The \<^verbatim>\<open>end\<close> listener of lines 108 to 116, with the body collected by the \<^verbatim>\<open>data\<close>
  listener, and the \<^verbatim>\<open>end\<close> event of a request.
\<close>

definition onRequestEnd :: "conn \<Rightarrow> qval \<Rightarrow> jsstring \<Rightarrow> state \<Rightarrow> state" where
  "onRequestEnd res deviceId message s =
     (if length message \<le> 2
      then thenCallback (Callback_parseDatabaseResponse res deviceId) (GetDeviceData deviceId s)
      else thenCallback (Callback_parseDatabaseResponse res deviceId)
             (GetSetDeviceData deviceId message s))"

definition requestEndEvent :: "conn \<Rightarrow> jsstring \<Rightarrow> state \<Rightarrow> state" where
  "requestEndEvent req message s =
     foldl (\<lambda>t (res, deviceId). if res = req then onRequestEnd res deviceId message t else t)
       s (bodyListeners s)"

text \<open>
  Lines 128 to 144. The function declares two parameters and is called with three: the
  third argument is bound to no name, and \<open>deviceId\<close> in the body is read from the scope.
\<close>

definition handlePublishRequest :: "conn \<Rightarrow> qval \<Rightarrow> state \<Rightarrow> state completion" where
  "handlePublishRequest res arg3 s =
     (case ident handlePublishRequest_scope ''deviceId'' arg3 of
        Inl e \<Rightarrow> Throw e s
      | Inr deviceId \<Rightarrow>
          (let s1 = (if subscriberCount s deviceId = 0 then s
                     else thenCallback (Callback_sendDataToSubscribers deviceId)
                            (GetDeviceData deviceId s))
           in andThen (setHeader res ''Access-Control-Allow-Origin'' ''*'' s1)
                (\<lambda>t. Normal (endResponse res [] (setStatusCode res 204 t)))))"

text \<open>
  Lines 52 to 92, the body of the \<^verbatim>\<open>try\<close>. The listeners of lines 35 to 49 only write to
  the console and are left out.
\<close>

definition handleRequest_try :: "env \<Rightarrow> request \<Rightarrow> conn \<Rightarrow> state \<Rightarrow> state completion" where
  \<open>handleRequest_try e req res s =
     (if truthy (query_ping req)
      then Return (endResponse res (utf16 ''{"ping": "success"}'') s)
      else
        let deviceId = (if truthy (query_device req) then query_device req else None);
            code = query_code req
        in andThen
             (if req_method req = ''OPTIONS''
              then andThen (setHeader res ''Access-Control-Allow-Origin'' ''*'' s)
                     (\<lambda>t. Normal (endResponse res [] t))
              else Normal s)
             (\<lambda>s. case deviceId of
                None \<Rightarrow>
                  Return (endResponse res (utf16 ''{"error": "Missing 'device' query parameter"}'')
                            (setStatusCode res 400 s))
              | Some d \<Rightarrow>
                  andThen
                    (if pathname req = ''/subscribe''
                     then if code \<noteq> Some (QStr (subscriptionKey e))
                          then Return (endResponse res (utf16 ''{"error": "Invalid subscription key"}'')
                                         (setStatusCode res 403 s))
                          else call (handleSubscribeRequest req res d s)
                     else Normal s)
                    (\<lambda>s. case ident handleRequest_scope ''urlParsed'' req of
                       Inl err \<Rightarrow> Throw err s
                     | Inr urlParsed \<Rightarrow>
                         if pathname urlParsed = ''/publish'' \<and> req_method req = ''POST''
                         then if code \<noteq> Some (QStr (publishKey e))
                              then Return (endResponse res (utf16 ''{"error": "Invalid code"}'')
                                             (setStatusCode res 400 s))
                              else call (handlePublishRequest res d s)
                         else Normal s)))\<close>

text \<open>Lines 93 to 97: the \<^verbatim>\<open>catch\<close> logs the error, sets status 500 and ends the response.\<close>

definition handleRequest_catch :: "error \<Rightarrow> conn \<Rightarrow> state \<Rightarrow> state" where
  "handleRequest_catch err res s =
     endResponse res [] (setStatusCode res 500 (s\<lparr>errorLog := errorLog s @ [err]\<rparr>))"

definition handleRequest :: "env \<Rightarrow> request \<Rightarrow> conn \<Rightarrow> state \<Rightarrow> state" where
  "handleRequest e req res s =
     (case handleRequest_try e req res s of
        Normal t \<Rightarrow> t
      | Return t \<Rightarrow> t
      | Throw err t \<Rightarrow> handleRequest_catch err res t)"

section \<open>Events\<close>

text \<open>
  The settlement of a fetch: the promise leaves the pending ones and the callback
  attached to it, if any, runs with the text of the reply. What the callback of the
  publish path throws is caught by the \<^verbatim>\<open>catch\<close> of lines 137 to 139; the callbacks of the
  subscribe path have none, and what they throw leaves the callback.
\<close>

definition fetchFulfilled :: "env \<Rightarrow> nat \<Rightarrow> jsstring \<Rightarrow> state \<Rightarrow> state completion" where
  "fetchFulfilled e i data s =
     (if i < length (pending s)
      then (let s1 = s\<lparr>pending := take i (pending s) @ drop (Suc i) (pending s)\<rparr>
            in case snd (pending s ! i) of
                 None \<Rightarrow> Normal s1
               | Some (Callback_parseDatabaseResponse res deviceId) \<Rightarrow>
                   parseDatabaseResponse e res deviceId data s1
               | Some (Callback_sendDataToSubscribers deviceId) \<Rightarrow>
                   Normal (stateOf (sendDataToSubscribers deviceId data s1))
               | Some (Callback_named name) \<Rightarrow> Throw (ReferenceError name) s1)
      else Normal s)"

text \<open>
  The events: a request arrives with its response object, the body of a request ends, a
  pending fetch is fulfilled, the connection of a request closes, a socket times out, a
  termination signal or the exit hook calls \<open>gracefullyShutdown\<close>. The last two events of
  the datatype are the calls the callbacks of a fetch make, taken on their own, so that a
  run may start from any registration and any broadcast. The rejection of a fetch is not
  an event of the model.
\<close>

datatype event =
    Request request conn
  | RequestEnd conn jsstring
  | FetchFulfilled nat jsstring
  | RequestClose conn
  | SocketTimeout conn
  | Signal
  | ParseDatabaseResponse conn qval jsstring
  | SendDataToSubscribers qval jsstring

fun step :: "env \<Rightarrow> event \<Rightarrow> state \<Rightarrow> state completion" where
  "step e (Request req res) s = Normal (handleRequest e req res s)"
| "step e (RequestEnd req message) s = Normal (requestEndEvent req message s)"
| "step e (FetchFulfilled i data) s = fetchFulfilled e i data s"
| "step e (RequestClose req) s = closeEvent req s"
| "step e (SocketTimeout sock) s = Normal (timeoutEvent sock s)"
| "step e Signal s = gracefullyShutdown s"
| "step e (ParseDatabaseResponse res deviceId data) s = parseDatabaseResponse e res deviceId data s"
| "step e (SendDataToSubscribers deviceId data) s = sendDataToSubscribers deviceId data s"

text \<open>A run of events; an exception that leaves a callback ends the run.\<close>

fun run :: "env \<Rightarrow> event list \<Rightarrow> state \<Rightarrow> state completion" where
  "run e [] s = Normal s"
| "run e (ev # evs) s = andThen (call (step e ev s)) (run e evs)"

section \<open>Module evaluation\<close>






section \<open>Example inputs\<close>

text \<open>
  An environment with no variable set, the identifier \<^verbatim>\<open>dev-1\<close>, and the requests
  \<^verbatim>\<open>GET /subscribe\<close>, \<^verbatim>\<open>POST /subscribe\<close>, \<^verbatim>\<open>POST /publish\<close> and \<^verbatim>\<open>OPTIONS /\<close> for it, each
  with the key of its role where one is checked.
\<close>

definition noEnv :: env where
  "noEnv = \<lparr>PORT = None, SUBSCRIPTION_KEY = None, PUBLISH_KEY = None,
            PLC_GET_DATA_KEY = None, PLC_GET_SET_DATA_KEY = None, SUBSCRIBER_TIMEOUT = None\<rparr>"

definition dev1 :: qval where
  "dev1 = QStr (utf16 ''dev-1'')"

definition dev2 :: qval where
  "dev2 = QStr (utf16 ''dev-2'')"

definition subscribeGet :: request where
  "subscribeGet = \<lparr>req_method = ''GET'', pathname = ''/subscribe'', query_ping = None,
                   query_device = Some dev1,
                   query_code = Some (QStr (utf16 ''test-subscription-key''))\<rparr>"

definition subscribePost :: request where
  "subscribePost = \<lparr>req_method = ''POST'', pathname = ''/subscribe'', query_ping = None,
                    query_device = Some dev1,
                    query_code = Some (QStr (utf16 ''test-subscription-key''))\<rparr>"

definition publishPost :: request where
  "publishPost = \<lparr>req_method = ''POST'', pathname = ''/publish'', query_ping = None,
                  query_device = Some dev1,
                  query_code = Some (QStr (utf16 ''test-publish-key''))\<rparr>"

text \<open>The identifier \<^verbatim>\<open>constructor\<close>, which every object inherits, and a post for it.\<close>

definition constructorId :: qval where
  "constructorId = QStr (utf16 ''constructor'')"

definition subscribePostConstructor :: request where
  "subscribePostConstructor =
     \<lparr>req_method = ''POST'', pathname = ''/subscribe'', query_ping = None,
      query_device = Some constructorId,
      query_code = Some (QStr (utf16 ''test-subscription-key''))\<rparr>"

definition optionsRoot :: request where
  "optionsRoot = \<lparr>req_method = ''OPTIONS'', pathname = ''/'', query_ping = None,
                  query_device = Some dev1, query_code = None\<rparr>"

section \<open>Ending responses\<close>

lemma endResponse_fields [simp]:
  "subscribers (endResponse r d s) = subscribers s"
  "closeListeners (endResponse r d s) = closeListeners s"
  "socketTimeouts (endResponse r d s) = socketTimeouts s"
  "destroyedSockets (endResponse r d s) = destroyedSockets s"
  "bodyListeners (endResponse r d s) = bodyListeners s"
  "pending (endResponse r d s) = pending s"
  "errorLog (endResponse r d s) = errorLog s"
  "exitTimers (endResponse r d s) = exitTimers s"
  by (simp_all add: endResponse_def)

lemma endResponse_head [simp]:
  "statusCode (responses (endResponse r d s) c) = statusCode (responses s c)"
  "headers (responses (endResponse r d s) c) = headers (responses s c)"
  by (simp_all add: endResponse_def res_end_def)

lemma endResponse_endCalls:
  "endCalls (responses (endResponse r d s) c)
     = (if c = r then Suc (endCalls (responses s c)) else endCalls (responses s c))"
  by (simp add: endResponse_def res_end_def)

lemma endResponse_sent:
  "sent (responses (endResponse r d s) c)
     = (if c = r
        then (case sent (responses s c) of
                None \<Rightarrow> Some \<lparr>status = statusCode (responses s c),
                               hdrs = headers (responses s c), content = d\<rparr>
              | Some w \<Rightarrow> Some w)
        else sent (responses s c))"
  by (auto simp add: endResponse_def res_end_def)

lemma endAll_fields [simp]:
  "subscribers (foldl (\<lambda>t res. endResponse res d t) s rs) = subscribers s"
  "closeListeners (foldl (\<lambda>t res. endResponse res d t) s rs) = closeListeners s"
  "socketTimeouts (foldl (\<lambda>t res. endResponse res d t) s rs) = socketTimeouts s"
  "destroyedSockets (foldl (\<lambda>t res. endResponse res d t) s rs) = destroyedSockets s"
  "bodyListeners (foldl (\<lambda>t res. endResponse res d t) s rs) = bodyListeners s"
  "pending (foldl (\<lambda>t res. endResponse res d t) s rs) = pending s"
  "errorLog (foldl (\<lambda>t res. endResponse res d t) s rs) = errorLog s"
  "exitTimers (foldl (\<lambda>t res. endResponse res d t) s rs) = exitTimers s"
  by (induction rs arbitrary: s; simp)+

lemma endAll_head [simp]:
  "statusCode (responses (foldl (\<lambda>t res. endResponse res d t) s rs) c) = statusCode (responses s c)"
  "headers (responses (foldl (\<lambda>t res. endResponse res d t) s rs) c) = headers (responses s c)"
  by (induction rs arbitrary: s; simp)+

lemma endAll_endCalls:
  "endCalls (responses (foldl (\<lambda>t res. endResponse res d t) s rs) c)
     = endCalls (responses s c) + count_list rs c"
  by (induction rs arbitrary: s) (simp_all add: endResponse_endCalls)

lemma endResponse_sent_Some:
  "sent (responses s c) = Some w \<Longrightarrow> sent (responses (endResponse r d s) c) = Some w"
  by (auto simp add: endResponse_def res_end_def)

lemma endAll_sent_Some:
  "sent (responses s c) = Some w \<Longrightarrow>
   sent (responses (foldl (\<lambda>t res. endResponse res d t) s rs) c) = Some w"
proof (induction rs arbitrary: s)
  case Nil
  then show ?case by simp
next
  case (Cons r rs)
  from Cons.prems have "sent (responses (endResponse r d s) c) = Some w"
    by (rule endResponse_sent_Some)
  then show ?case by (simp add: Cons.IH)
qed


lemma endAll_sent_None:
  "c \<in> set rs \<Longrightarrow> sent (responses s c) = None \<Longrightarrow>
   sent (responses (foldl (\<lambda>t res. endResponse res d t) s rs) c)
     = Some \<lparr>status = statusCode (responses s c), hdrs = headers (responses s c), content = d\<rparr>"
proof (induction rs arbitrary: s)
  case Nil
  then show ?case by simp
next
  case (Cons r rs)
  show ?case
  proof (cases "r = c")
    case True
    have "sent (responses (endResponse r d s) c)
            = Some \<lparr>status = statusCode (responses s c), hdrs = headers (responses s c), content = d\<rparr>"
      using True Cons.prems(2) by (simp add: endResponse_sent)
    then show ?thesis by (simp add: endAll_sent_Some)
  next
    case False
    with Cons.prems have "c \<in> set rs" by simp
    moreover have "sent (responses (endResponse r d s) c) = None"
      using False Cons.prems(2) by (simp add: endResponse_sent)
    ultimately have "sent (responses (foldl (\<lambda>t res. endResponse res d t) (endResponse r d s) rs) c)
      = Some \<lparr>status = statusCode (responses (endResponse r d s) c),
              hdrs = headers (responses (endResponse r d s) c), content = d\<rparr>"
      by (rule Cons.IH)
    then show ?thesis by simp
  qed
qed

lemma endResponse_received:
  "received (responses (endResponse r d s) c)
     = (if c = r \<and> sent (responses s c) = None \<and> c \<notin> set (destroyedSockets s)
        then Some \<lparr>status = statusCode (responses s c), hdrs = headers (responses s c),
                   content = d\<rparr>
        else received (responses s c))"
  by (auto simp add: endResponse_def res_end_def split: option.split)

lemma endAll_received_kept:
  "sent (responses s c) = Some w \<Longrightarrow>
   received (responses (foldl (\<lambda>t res. endResponse res d t) s rs) c) = received (responses s c)"
proof (induction rs arbitrary: s)
  case Nil
  then show ?case by simp
next
  case (Cons r rs)
  from Cons.prems have "sent (responses (endResponse r d s) c) = Some w"
    by (rule endResponse_sent_Some)
  then have "received (responses (foldl (\<lambda>t res. endResponse res d t) (endResponse r d s) rs) c)
               = received (responses (endResponse r d s) c)"
    by (rule Cons.IH)
  with Cons.prems show ?case by (simp add: endResponse_received)
qed

lemma endAll_received_other:
  "c \<notin> set rs \<Longrightarrow>
   received (responses (foldl (\<lambda>t res. endResponse res d t) s rs) c) = received (responses s c)"
  by (induction rs arbitrary: s) (simp_all add: endResponse_received)

lemma endAll_received_destroyed:
  "c \<in> set (destroyedSockets s) \<Longrightarrow>
   received (responses (foldl (\<lambda>t res. endResponse res d t) s rs) c) = received (responses s c)"
  by (induction rs arbitrary: s) (simp_all add: endResponse_received)

lemma endAll_received_None:
  "c \<in> set rs \<Longrightarrow> sent (responses s c) = None \<Longrightarrow> c \<notin> set (destroyedSockets s) \<Longrightarrow>
   received (responses (foldl (\<lambda>t res. endResponse res d t) s rs) c)
     = Some \<lparr>status = statusCode (responses s c), hdrs = headers (responses s c), content = d\<rparr>"
proof (induction rs arbitrary: s)
  case Nil
  then show ?case by simp
next
  case (Cons r rs)
  show ?case
  proof (cases "r = c")
    case True
    have w: "sent (responses (endResponse r d s) c)
            = Some \<lparr>status = statusCode (responses s c), hdrs = headers (responses s c), content = d\<rparr>"
      using True Cons.prems(2) by (simp add: endResponse_sent)
    have "received (responses (endResponse r d s) c)
            = Some \<lparr>status = statusCode (responses s c), hdrs = headers (responses s c), content = d\<rparr>"
      using True Cons.prems(2,3) by (simp add: endResponse_received)
    with endAll_received_kept [OF w] show ?thesis by simp
  next
    case False
    with Cons.prems have "c \<in> set rs" by simp
    moreover have "sent (responses (endResponse r d s) c) = None"
      using False Cons.prems(2) by (simp add: endResponse_sent)
    moreover have "c \<notin> set (destroyedSockets (endResponse r d s))"
      using Cons.prems(3) by simp
    ultimately have "received (responses (foldl (\<lambda>t res. endResponse res d t) (endResponse r d s) rs) c)
      = Some \<lparr>status = statusCode (responses (endResponse r d s) c),
              hdrs = headers (responses (endResponse r d s) c), content = d\<rparr>"
      by (rule Cons.IH)
    then show ?thesis by simp
  qed
qed

section \<open>Registering and broadcasting\<close>

lemma not_inherited:
  "k \<notin> set inheritedProperties \<Longrightarrow> subscribersAt s k \<noteq> Inherited"
  by (simp add: subscribersAt_def split: option.split)

lemma socketSetTimeout_frame [simp]:
  "subscribers (stateOf (socketSetTimeout m sock s)) = subscribers s"
  "closeListeners (stateOf (socketSetTimeout m sock s)) = closeListeners s"
  "responses (stateOf (socketSetTimeout m sock s)) = responses s"
  "destroyedSockets (stateOf (socketSetTimeout m sock s)) = destroyedSockets s"
  "bodyListeners (stateOf (socketSetTimeout m sock s)) = bodyListeners s"
  "pending (stateOf (socketSetTimeout m sock s)) = pending s"
  by (simp_all add: socketSetTimeout_def split: timeoutValue.split)

lemma socketSetTimeout_keeps:
  "c \<in> set (socketTimeouts s) \<Longrightarrow> c \<in> set (socketTimeouts (stateOf (socketSetTimeout m sock s)))"
  by (simp add: socketSetTimeout_def split: timeoutValue.split)

lemma saveSubscriber_Inherited:
  "subscribersAt s (propertyKey deviceId) = Inherited \<Longrightarrow>
   saveSubscriber e res deviceId s = Throw (TypeError ''push'') s"
  by (simp add: saveSubscriber_def Let_def)

lemma saveSubscriber_eq:
  assumes "subscribersAt s (propertyKey deviceId) \<noteq> Inherited"
  shows "saveSubscriber e res deviceId s
     = socketSetTimeout (subscriberTimeout e) res
         (s\<lparr>subscribers := AList.update (propertyKey deviceId) (held s deviceId @ [res])
                              (subscribers s),
            closeListeners := closeListeners s @ [(res, deviceId)]\<rparr>)"
proof (cases "map_of (subscribers s) (propertyKey deviceId)")
  case None
  with assms show ?thesis
    by (simp add: saveSubscriber_def Let_def subscribersAt_def held_def split: if_splits)
next
  case (Some rs)
  then show ?thesis
    by (simp add: saveSubscriber_def Let_def subscribersAt_def held_def)
qed

lemma held_saveSubscriber:
  "subscribersAt s (propertyKey deviceId) \<noteq> Inherited \<Longrightarrow>
   held (stateOf (saveSubscriber e res deviceId s)) deviceId = held s deviceId @ [res]"
  by (simp add: saveSubscriber_eq held_def update_conv')


lemma saveSubscriber_frame [simp]:
  "responses (stateOf (saveSubscriber e res deviceId s)) = responses s"
  "destroyedSockets (stateOf (saveSubscriber e res deviceId s)) = destroyedSockets s"
  "bodyListeners (stateOf (saveSubscriber e res deviceId s)) = bodyListeners s"
  "pending (stateOf (saveSubscriber e res deviceId s)) = pending s"
  by (cases "subscribersAt s (propertyKey deviceId) = Inherited";
      simp add: saveSubscriber_Inherited saveSubscriber_eq)+

lemma subscribersAt_saveSubscriber:
  "subscribersAt s (propertyKey deviceId) \<noteq> Inherited \<Longrightarrow>
   subscribersAt (stateOf (saveSubscriber e res deviceId s)) (propertyKey deviceId) \<noteq> Inherited"
  by (simp add: saveSubscriber_eq subscribersAt_def update_conv')

lemma sendData_Inherited:
  "subscribersAt s (propertyKey deviceId) = Inherited \<Longrightarrow>
   sendDataToSubscribers deviceId data s = Throw (TypeError ''forEach'') s"
  by (simp add: sendDataToSubscribers_def Let_def)

lemma sendData_Normal:
  assumes "subscribersAt s (propertyKey deviceId) \<noteq> Inherited"
  shows "sendDataToSubscribers deviceId data s
     = Normal ((foldl (\<lambda>t res. endResponse res data t) s (held s deviceId))
                 \<lparr>subscribers := AList.update (propertyKey deviceId) [] (subscribers s)\<rparr>)"
proof (cases "map_of (subscribers s) (propertyKey deviceId)")
  case None
  with assms show ?thesis
    by (simp add: sendDataToSubscribers_def Let_def subscribersAt_def held_def split: if_splits)
next
  case (Some rs)
  then show ?thesis
    by (simp add: sendDataToSubscribers_def Let_def subscribersAt_def held_def)
qed



lemma sendData_frame [simp]:
  "socketTimeouts (stateOf (sendDataToSubscribers deviceId data s)) = socketTimeouts s"
  "destroyedSockets (stateOf (sendDataToSubscribers deviceId data s)) = destroyedSockets s"
  "closeListeners (stateOf (sendDataToSubscribers deviceId data s)) = closeListeners s"
  "bodyListeners (stateOf (sendDataToSubscribers deviceId data s)) = bodyListeners s"
  "pending (stateOf (sendDataToSubscribers deviceId data s)) = pending s"
  by (cases "subscribersAt s (propertyKey deviceId) = Inherited";
      simp add: sendData_Inherited sendData_Normal)+

lemmas model_defs =
  saveSubscriber_def socketSetTimeout_def subscriberTimeout_def noEnv_def subscribersAt_def
  inheritedProperties_def utf16_def dev1_def dev2_def constructorId_def initialState_def held_def
  Let_def timeoutEvent_def endResponse_def res_end_def freshResponse_def
  sendDataToSubscribers_def closeEvent_def subscriberCount_def

lemma dev1_not_inherited: "propertyKey dev1 \<notin> set inheritedProperties"
  by (simp add: dev1_def inheritedProperties_def utf16_def)


text \<open>
  Claim C1, as amended. Take an identifier that names no property every object
  inherits, and a connection \<open>res\<close> that is not yet held for it. When \<open>res\<close> is registered
  for the identifier by \<open>saveSubscriber\<close>, which leaves it in the array also when line 162
  throws, and a payload is then broadcast to the identifier by \<open>sendDataToSubscribers\<close>,
  the broadcast completes, the sequence it walks holds \<open>res\<close>
  exactly once and \<^verbatim>\<open>res.end(data)\<close> is called on it exactly once; every connection held for
  the identifier at that moment whose response was not ended before is ended with
  exactly this payload, and the payload reaches the requester when the socket is not
  destroyed; afterwards the identifier maps to the empty array, not to nothing, and the
  count is 0.
\<close>

theorem register_then_broadcast:
  assumes "propertyKey deviceId \<notin> set inheritedProperties"
      and "res \<notin> set (held s deviceId)"
  shows "let s1 = stateOf (saveSubscriber e res deviceId s)
         in \<exists>s2. sendDataToSubscribers deviceId data s1 = Normal s2
              \<and> count_list (held s1 deviceId) res = 1
              \<and> endCalls (responses s2 res) = Suc (endCalls (responses s1 res))
              \<and> (\<forall>c \<in> set (held s1 deviceId). sent (responses s1 c) = None \<longrightarrow>
                    sent (responses s2 c)
                      = Some \<lparr>status = statusCode (responses s1 c),
                              hdrs = headers (responses s1 c), content = data\<rparr>
                  \<and> (c \<notin> set (destroyedSockets s1) \<longrightarrow>
                        received (responses s2 c)
                          = Some \<lparr>status = statusCode (responses s1 c),
                                  hdrs = headers (responses s1 c), content = data\<rparr>))
              \<and> map_of (subscribers s2) (propertyKey deviceId) = Some []
              \<and> subscriberCount s2 deviceId = 0"
proof -
  define s1 where "s1 = stateOf (saveSubscriber e res deviceId s)"
  define s2 where "s2 = (foldl (\<lambda>t res. endResponse res data t) s1 (held s1 deviceId))
                          \<lparr>subscribers := AList.update (propertyKey deviceId) [] (subscribers s1)\<rparr>"
  have own: "subscribersAt s (propertyKey deviceId) \<noteq> Inherited"
    using assms(1) by (rule not_inherited)
  then have own1: "subscribersAt s1 (propertyKey deviceId) \<noteq> Inherited"
    unfolding s1_def by (rule subscribersAt_saveSubscriber)
  have run: "sendDataToSubscribers deviceId data s1 = Normal s2"
    unfolding s2_def using own1 by (rule sendData_Normal)
  have h: "held s1 deviceId = held s deviceId @ [res]"
    unfolding s1_def using own by (rule held_saveSubscriber)
  have once: "count_list (held s1 deviceId) res = 1"
    using assms(2) by (simp add: h count_list_0_iff)
  have r2: "responses s2 = responses (foldl (\<lambda>t res. endResponse res data t) s1 (held s1 deviceId))"
    by (simp add: s2_def)
  have calls: "endCalls (responses s2 res) = Suc (endCalls (responses s1 res))"
    by (simp add: r2 endAll_endCalls once)
  have deliv: "\<forall>c \<in> set (held s1 deviceId). sent (responses s1 c) = None \<longrightarrow>
                    sent (responses s2 c)
                      = Some \<lparr>status = statusCode (responses s1 c),
                              hdrs = headers (responses s1 c), content = data\<rparr>
                  \<and> (c \<notin> set (destroyedSockets s1) \<longrightarrow>
                        received (responses s2 c)
                          = Some \<lparr>status = statusCode (responses s1 c),
                                  hdrs = headers (responses s1 c), content = data\<rparr>)"
    by (simp add: r2 endAll_sent_None endAll_received_None)
  have empty: "map_of (subscribers s2) (propertyKey deviceId) = Some []"
    by (simp add: s2_def update_conv')
  then have "subscriberCount s2 deviceId = 0"
    by (simp add: subscriberCount_def)
  with run once calls deliv empty have "\<exists>s2. sendDataToSubscribers deviceId data s1 = Normal s2
              \<and> count_list (held s1 deviceId) res = 1
              \<and> endCalls (responses s2 res) = Suc (endCalls (responses s1 res))
              \<and> (\<forall>c \<in> set (held s1 deviceId). sent (responses s1 c) = None \<longrightarrow>
                    sent (responses s2 c)
                      = Some \<lparr>status = statusCode (responses s1 c),
                              hdrs = headers (responses s1 c), content = data\<rparr>
                  \<and> (c \<notin> set (destroyedSockets s1) \<longrightarrow>
                        received (responses s2 c)
                          = Some \<lparr>status = statusCode (responses s1 c),
                                  hdrs = headers (responses s1 c), content = data\<rparr>))
              \<and> map_of (subscribers s2) (propertyKey deviceId) = Some []
              \<and> subscriberCount s2 deviceId = 0"
    by blast
  then show ?thesis by (simp add: s1_def Let_def)
qed

theorem register_then_broadcast_witness:
  "propertyKey dev1 \<notin> set inheritedProperties
   \<and> 1 \<notin> set (held initialState dev1)
   \<and> count_list (held (stateOf (saveSubscriber noEnv 1 dev1 initialState)) dev1) 1 = 1
   \<and> (\<exists>s2. sendDataToSubscribers dev1 (utf16 ''42.5'')
              (stateOf (saveSubscriber noEnv 1 dev1 initialState)) = Normal s2
         \<and> sent (responses s2 1) = Some \<lparr>status = 200, hdrs = [], content = utf16 ''42.5''\<rparr>
         \<and> received (responses s2 1) = Some \<lparr>status = 200, hdrs = [], content = utf16 ''42.5''\<rparr>
         \<and> subscriberCount s2 dev1 = 0)"
proof -
  let ?s1 = "stateOf (saveSubscriber noEnv 1 dev1 initialState)"
  have h: "1 \<notin> set (held initialState dev1)"
    by (simp add: held_def initialState_def)
  have open1: "sent (responses ?s1 1) = None" "1 \<notin> set (destroyedSockets ?s1)"
    by (simp_all add: initialState_def freshResponse_def)
  have head1: "statusCode (responses ?s1 1) = 200" "headers (responses ?s1 1) = []"
    by (simp_all add: initialState_def freshResponse_def)
  have in1: "1 \<in> set (held ?s1 dev1)"
    by (simp add: held_saveSubscriber not_inherited dev1_not_inherited)
  from register_then_broadcast [OF dev1_not_inherited h, of noEnv "utf16 ''42.5''"]
  obtain s2 where
    run: "sendDataToSubscribers dev1 (utf16 ''42.5'') ?s1 = Normal s2"
    and once: "count_list (held ?s1 dev1) 1 = 1"
    and deliv: "\<forall>c \<in> set (held ?s1 dev1). sent (responses ?s1 c) = None \<longrightarrow>
                    sent (responses s2 c)
                      = Some \<lparr>status = statusCode (responses ?s1 c),
                              hdrs = headers (responses ?s1 c), content = utf16 ''42.5''\<rparr>
                  \<and> (c \<notin> set (destroyedSockets ?s1) \<longrightarrow>
                        received (responses s2 c)
                          = Some \<lparr>status = statusCode (responses ?s1 c),
                                  hdrs = headers (responses ?s1 c), content = utf16 ''42.5''\<rparr>)"
    and count: "subscriberCount s2 dev1 = 0"
    by (auto simp add: Let_def)
  from deliv in1 open1 head1 have
    "sent (responses s2 1) = Some \<lparr>status = 200, hdrs = [], content = utf16 ''42.5''\<rparr>"
    "received (responses s2 1) = Some \<lparr>status = 200, hdrs = [], content = utf16 ''42.5''\<rparr>"
    by auto
  with run once count h dev1_not_inherited show ?thesis by blast
qed

text \<open>
  The claim as stated fails in each of these ways. A connection registered twice for
  \<^verbatim>\<open>dev-1\<close> is in the sequence twice. A connection held for \<^verbatim>\<open>dev-1\<close> whose timeout has fired
  is not resolved with the payload \<^verbatim>\<open>42.5\<close> of a later broadcast: its response stays the
  empty one and its requester gets nothing. A connection registered after its socket was
  destroyed is ended with the payload, which reaches nobody. For the identifier
  \<^verbatim>\<open>constructor\<close> both the registration and the broadcast throw.
\<close>

theorem register_then_broadcast_counterexample:
  "count_list (held (stateOf (saveSubscriber noEnv 1 dev1
                      (stateOf (saveSubscriber noEnv 1 dev1 initialState)))) dev1) 1 = 2
   \<and> held (timeoutEvent 1 (stateOf (saveSubscriber noEnv 1 dev1 initialState))) dev1 = [1]
   \<and> sent (responses (stateOf (sendDataToSubscribers dev1 (utf16 ''42.5'')
             (timeoutEvent 1 (stateOf (saveSubscriber noEnv 1 dev1 initialState))))) 1)
       = Some \<lparr>status = 200, hdrs = [], content = []\<rparr>
   \<and> received (responses (stateOf (sendDataToSubscribers dev1 (utf16 ''42.5'')
             (timeoutEvent 1 (stateOf (saveSubscriber noEnv 1 dev1 initialState))))) 1)
       = None
   \<and> held (stateOf (saveSubscriber noEnv 1 dev1 (stateOf (closeEvent 1 initialState)))) dev1 = [1]
   \<and> received (responses (stateOf (sendDataToSubscribers dev1 (utf16 ''42.5'')
             (stateOf (saveSubscriber noEnv 1 dev1 (stateOf (closeEvent 1 initialState)))))) 1)
       = None
   \<and> thrown (saveSubscriber noEnv 1 constructorId initialState) = Some (TypeError ''push'')
   \<and> thrown (sendDataToSubscribers constructorId (utf16 ''42.5'') initialState)
       = Some (TypeError ''forEach'')"
  by (simp add: model_defs)

section \<open>Classifying a payload\<close>

lemma held_sendData:
  "subscribersAt s (propertyKey deviceId) \<noteq> Inherited \<Longrightarrow>
   held (stateOf (sendDataToSubscribers deviceId data s)) deviceId = []"
  by (simp add: sendData_Normal held_def update_conv')

lemma subscribers_endResponse_held [simp]:
  "held (endResponse r d s) deviceId = held s deviceId"
  by (simp add: held_def)

lemma thenCallback_if:
  "thenCallback cb s
     = (if pending s = [] then s
        else s\<lparr>pending := butlast (pending s) @ [(fst (last (pending s)), Some cb)]\<rparr>)"
  by (cases "pending s") (simp_all add: thenCallback_def)

lemma pending_then_GetDeviceData:
  "pending (thenCallback cb (GetDeviceData deviceId s))
     = pending s @ [(PLC_GetData deviceId, Some cb)]"
  by (simp add: thenCallback_if GetDeviceData_def)

lemma pending_then_GetSetDeviceData:
  "pending (thenCallback cb (GetSetDeviceData deviceId body s))
     = pending s @ [(PLC_GetSetData deviceId body, Some cb)]"
  by (simp add: thenCallback_if GetSetDeviceData_def)

text \<open>
  Claim C2. \<open>parseDatabaseResponse\<close> treats a payload as empty exactly when its length is
  at most 2: then it does what \<open>saveSubscriber\<close> does and nothing else, otherwise it does
  what \<open>sendDataToSubscribers\<close> does and ends the response with the payload. The test
  reads the length only, changes nothing and throws nothing: whatever is thrown is
  thrown by the branch chosen. For an identifier that names no property every object
  inherits the choice shows in the registry: the connection is held afterwards exactly
  when the length is at most 2, and nothing is held for the identifier exactly when it
  is more. The \<^verbatim>\<open>end\<close> listener of a posted body decides between the two fetches by the
  same test on the body.
\<close>

theorem classification_by_length:
  "(length data \<le> 2 \<longrightarrow>
      parseDatabaseResponse e res deviceId data s = saveSubscriber e res deviceId s)
   \<and> (2 < length data \<longrightarrow>
      parseDatabaseResponse e res deviceId data s
        = andThen (sendDataToSubscribers deviceId data s)
            (\<lambda>t. Normal (endResponse res data t)))
   \<and> (propertyKey deviceId \<notin> set inheritedProperties \<longrightarrow>
        (res \<in> set (held (stateOf (parseDatabaseResponse e res deviceId data s)) deviceId))
          = (length data \<le> 2)
      \<and> (subscriberCount (stateOf (parseDatabaseResponse e res deviceId data s)) deviceId = 0)
          = (2 < length data))
   \<and> pending (onRequestEnd res deviceId message s)
       = pending s @ [(if length message \<le> 2 then PLC_GetData deviceId
                       else PLC_GetSetData deviceId message,
                       Some (Callback_parseDatabaseResponse res deviceId))]"
proof -
  have cnt: "subscriberCount t deviceId = length (held t deviceId)" for t
    by (simp add: subscriberCount_def held_def)
  have ab: "(res \<in> set (held (stateOf (parseDatabaseResponse e res deviceId data s)) deviceId))
          = (length data \<le> 2)
      \<and> (subscriberCount (stateOf (parseDatabaseResponse e res deviceId data s)) deviceId = 0)
          = (2 < length data)"
    if "propertyKey deviceId \<notin> set inheritedProperties"
  proof -
    from that have own: "subscribersAt s (propertyKey deviceId) \<noteq> Inherited"
      by (rule not_inherited)
    show ?thesis
    proof (cases "length data \<le> 2")
      case True
      then show ?thesis
        using own by (simp add: cnt parseDatabaseResponse_def held_saveSubscriber)
    next
      case False
      have "held (stateOf (andThen (sendDataToSubscribers deviceId data s)
                     (\<lambda>t. Normal (endResponse res data t)))) deviceId = []"
        using own by (simp add: sendData_Normal held_def update_conv')
      with False show ?thesis
        by (simp add: cnt parseDatabaseResponse_def)
    qed
  qed
  have c: "pending (onRequestEnd res deviceId message s)
       = pending s @ [(if length message \<le> 2 then PLC_GetData deviceId
                       else PLC_GetSetData deviceId message,
                       Some (Callback_parseDatabaseResponse res deviceId))]"
    by (simp add: onRequestEnd_def pending_then_GetDeviceData pending_then_GetSetDeviceData)
  from ab c show ?thesis by (simp add: parseDatabaseResponse_def)
qed

theorem classification_by_length_witness:
  "length (utf16 ''{}'') \<le> 2 \<and> 2 < length (utf16 ''17.2'')
   \<and> propertyKey dev1 \<notin> set inheritedProperties
   \<and> parseDatabaseResponse noEnv 1 dev1 (utf16 ''{}'') initialState
       = saveSubscriber noEnv 1 dev1 initialState
   \<and> parseDatabaseResponse noEnv 1 dev1 (utf16 ''17.2'') initialState
       = andThen (sendDataToSubscribers dev1 (utf16 ''17.2'') initialState)
           (\<lambda>t. Normal (endResponse 1 (utf16 ''17.2'') t))
   \<and> 1 \<in> set (held (stateOf (parseDatabaseResponse noEnv 1 dev1 (utf16 ''{}'') initialState)) dev1)
   \<and> subscriberCount (stateOf (parseDatabaseResponse noEnv 1 dev1 (utf16 ''17.2'') initialState))
         dev1 = 0"
proof -
  have e: "length (utf16 ''{}'') \<le> 2" and r: "2 < length (utf16 ''17.2'')"
    by (simp_all add: utf16_def)
  note n = dev1_not_inherited
  from classification_by_length [of "utf16 ''{}''" noEnv 1 dev1 initialState] e n
  have a: "parseDatabaseResponse noEnv 1 dev1 (utf16 ''{}'') initialState
             = saveSubscriber noEnv 1 dev1 initialState"
    and b: "1 \<in> set (held (stateOf (parseDatabaseResponse noEnv 1 dev1 (utf16 ''{}'')
                              initialState)) dev1)"
    by blast+
  from classification_by_length [of "utf16 ''17.2''" noEnv 1 dev1 initialState] r n
  have c: "parseDatabaseResponse noEnv 1 dev1 (utf16 ''17.2'') initialState
       = andThen (sendDataToSubscribers dev1 (utf16 ''17.2'') initialState)
           (\<lambda>t. Normal (endResponse 1 (utf16 ''17.2'') t))"
    and d: "subscriberCount (stateOf (parseDatabaseResponse noEnv 1 dev1 (utf16 ''17.2'')
                              initialState)) dev1 = 0"
    by blast+
  from e r n a b c d show ?thesis by blast
qed

section \<open>Shutting down\<close>

lemma shutdownLoop_eq:
  "set ks \<subseteq> fst ` set (subscribers s) \<Longrightarrow>
   shutdownLoop ks s
     = Normal (foldl (\<lambda>t res. endResponse res [] t) s
         (concat (map (\<lambda>k. case map_of (subscribers s) k of None \<Rightarrow> [] | Some rs \<Rightarrow> rs) ks)))"
proof (induction ks arbitrary: s)
  case Nil
  then show ?case by simp
next
  case (Cons k ks)
  from Cons.prems obtain rs where rs: "map_of (subscribers s) k = Some rs"
    by (cases "map_of (subscribers s) k") (auto simp add: map_of_eq_None_iff)
  let ?s1 = "foldl (\<lambda>t res. endResponse res [] t) s rs"
  have "set ks \<subseteq> fst ` set (subscribers ?s1)"
    using Cons.prems by simp
  then have "shutdownLoop ks ?s1
     = Normal (foldl (\<lambda>t res. endResponse res [] t) ?s1
         (concat (map (\<lambda>k. case map_of (subscribers ?s1) k of None \<Rightarrow> [] | Some rs \<Rightarrow> rs) ks)))"
    by (rule Cons.IH)
  then show ?case using rs by simp
qed




lemma gracefullyShutdown_eq:
  "gracefullyShutdown s
     = Normal ((foldl (\<lambda>t res. endResponse res [] t) s (allHeld s))
                 \<lparr>exitTimers := Suc (exitTimers s)\<rparr>)"
  by (simp add: gracefullyShutdown_def shutdownLoop_eq allHeld_def)





section \<open>Starting the module\<close>


section \<open>Handling a request\<close>

lemma urlParsed_undeclared:
  "ident handleRequest_scope ''urlParsed'' v = Inl (ReferenceError ''urlParsed'')"
  by (simp add: ident_def handleRequest_scope_def module_scope_def)

lemma parseFunctionResponse_undeclared:
  "ident handleSubscribeRequest_scope ''parseFunctionResponse'' v
     = Inl (ReferenceError ''parseFunctionResponse'')"
  by (simp add: ident_def handleSubscribeRequest_scope_def module_scope_def)

lemma deviceId_undeclared:
  "ident handlePublishRequest_scope ''deviceId'' v = Inl (ReferenceError ''deviceId'')"
  by (simp add: ident_def handlePublishRequest_scope_def module_scope_def)

lemma handleSubscribeRequest_eq:
  "handleSubscribeRequest req res deviceId s
     = (if req_method req = ''POST''
        then Return (s\<lparr>bodyListeners := bodyListeners s @ [(res, deviceId)]\<rparr>)
        else if req_method req = ''GET''
        then Throw (ReferenceError ''parseFunctionResponse'') (GetDeviceData deviceId s)
        else Normal s)"
  by (simp add: handleSubscribeRequest_def parseFunctionResponse_undeclared)

lemma handlePublishRequest_eq:
  "handlePublishRequest res arg3 s = Throw (ReferenceError ''deviceId'') s"
  by (simp add: handlePublishRequest_def deviceId_undeclared)

text \<open>What the try block does once the ping and the device checks are passed.\<close>

lemma handleRequest_try_dispatch:
  assumes "\<not> truthy (query_ping req)" and "truthy (query_device req)"
      and "pathname req = ''/subscribe'' \<longrightarrow> query_code req = Some (QStr (subscriptionKey e))"
      and "req_method req \<noteq> ''OPTIONS''"
      and "query_device req = Some d"
  shows "handleRequest_try e req res s
     = (if pathname req = ''/subscribe'' \<and> req_method req = ''POST''
        then Throw (ReferenceError ''urlParsed'') (s\<lparr>bodyListeners := bodyListeners s @ [(res, d)]\<rparr>)
        else if pathname req = ''/subscribe'' \<and> req_method req = ''GET''
        then Throw (ReferenceError ''parseFunctionResponse'') (GetDeviceData d s)
        else Throw (ReferenceError ''urlParsed'') s)"
  using assms
  by (simp add: handleRequest_try_def handleSubscribeRequest_eq urlParsed_undeclared)

lemma handleRequest_try_options:
  assumes "\<not> truthy (query_ping req)" and "truthy (query_device req)"
      and "pathname req = ''/subscribe'' \<longrightarrow> query_code req = Some (QStr (subscriptionKey e))"
      and "req_method req = ''OPTIONS''"
      and "sent (responses s res) = None"
  shows "handleRequest_try e req res s
     = Throw (ReferenceError ''urlParsed'')
         (endResponse res []
           (s\<lparr>responses := (responses s)
               (res := (responses s res)\<lparr>headers :=
                  AList.update ''Access-Control-Allow-Origin'' ''*'' (headers (responses s res))\<rparr>)\<rparr>))"
proof -
  from assms(2) obtain d where "query_device req = Some d"
    by (cases "query_device req") simp_all
  with assms show ?thesis
    by (simp add: handleRequest_try_def handleSubscribeRequest_eq urlParsed_undeclared
          setHeader_def Let_def)
qed

lemma truthy_Some: "truthy v \<Longrightarrow> \<exists>d. v = Some d"
  by (cases v) simp_all

lemma subscriptionKey_noEnv: "subscriptionKey noEnv = utf16 ''test-subscription-key''"
  by (simp add: subscriptionKey_def noEnv_def)

lemmas request_defs =
  handleRequest_def handleRequest_try_def handleRequest_catch_def handleSubscribeRequest_def
  handlePublishRequest_def ident_def handleRequest_scope_def handleSubscribeRequest_scope_def
  handlePublishRequest_scope_def module_scope_def setHeader_def setStatusCode_def
  subscriptionKey_def publishKey_def GetDeviceData_def GetSetDeviceData_def thenCallback_def
  requestEndEvent_def onRequestEnd_def fetchFulfilled_def parseDatabaseResponse_def
  subscribeGet_def subscribePost_def publishPost_def optionsRoot_def subscribePostConstructor_def

text \<open>
  Claim C9, as amended. A request on a fresh response that has a truthy \<open>device\<close>
  parameter, is not short-circuited by \<open>ping\<close> and is not rejected by the subscription
  key check always throws a ReferenceError inside the \<^verbatim>\<open>try\<close>: for \<open>urlParsed\<close> at line 84,
  except for \<^verbatim>\<open>GET /subscribe\<close>, where \<open>handleSubscribeRequest\<close> throws first, for
  \<open>parseFunctionResponse\<close> at line 123. The catch block sets the status code to 500 and
  ends the response: the requester gets a bare 500, except when the method is OPTIONS,
  where the response was already ended at line 66 with the status it had and the CORS
  header. For \<^verbatim>\<open>POST /subscribe\<close> the response is thus ended when the body listeners are
  registered, before any fetch is issued; for \<^verbatim>\<open>GET /subscribe\<close> it is ended when the fetch
  is issued, with no callback attached to it. What the response is ended with reaches the
  requester when the socket is not destroyed.
\<close>

theorem dispatch_always_throws:
  assumes "\<not> truthy (query_ping req)" and "truthy (query_device req)"
      and "pathname req = ''/subscribe'' \<longrightarrow> query_code req = Some (QStr (subscriptionKey e))"
      and "sent (responses s res) = None"
  shows "thrown (handleRequest_try e req res s)
           = Some (ReferenceError (if pathname req = ''/subscribe'' \<and> req_method req = ''GET''
                                   then ''parseFunctionResponse'' else ''urlParsed''))
       \<and> statusCode (responses (handleRequest e req res s) res) = 500
       \<and> sent (responses (handleRequest e req res s) res) \<noteq> None
       \<and> (req_method req \<noteq> ''OPTIONS'' \<longrightarrow>
            sent (responses (handleRequest e req res s) res)
              = Some \<lparr>status = 500, hdrs = headers (responses s res), content = []\<rparr>)
       \<and> (req_method req = ''OPTIONS'' \<longrightarrow>
            sent (responses (handleRequest e req res s) res)
              = Some \<lparr>status = statusCode (responses s res),
                      hdrs = AList.update ''Access-Control-Allow-Origin'' ''*''
                               (headers (responses s res)),
                      content = []\<rparr>)
       \<and> (pathname req = ''/subscribe'' \<and> req_method req = ''POST'' \<longrightarrow>
            pending (handleRequest e req res s) = pending s
          \<and> (\<forall>d. query_device req = Some d \<longrightarrow>
                bodyListeners (handleRequest e req res s) = bodyListeners s @ [(res, d)]))
       \<and> (pathname req = ''/subscribe'' \<and> req_method req = ''GET'' \<longrightarrow>
            (\<forall>d. query_device req = Some d \<longrightarrow>
                pending (handleRequest e req res s) = pending s @ [(PLC_GetData d, None)]))
       \<and> (res \<notin> set (destroyedSockets s) \<longrightarrow>
            received (responses (handleRequest e req res s) res)
              = sent (responses (handleRequest e req res s) res))"
proof -
  from assms(2) obtain d where d: "query_device req = Some d"
    using truthy_Some by blast
  show ?thesis
  proof (cases "req_method req = ''OPTIONS''")
    case True
    note tr = handleRequest_try_options [OF assms(1) assms(2) assms(3) True assms(4)]
    show ?thesis
      using True assms(4)
      by (simp add: tr handleRequest_def handleRequest_catch_def endResponse_def
            setStatusCode_def res_end_def)
  next
    case False
    note tr = handleRequest_try_dispatch [OF assms(1) assms(2) assms(3) False d]
    show ?thesis
      using False assms(4) d
      by (simp add: tr handleRequest_def handleRequest_catch_def endResponse_def
            setStatusCode_def res_end_def GetDeviceData_def)
  qed
qed

theorem dispatch_always_throws_witness:
  "\<not> truthy (query_ping subscribePost) \<and> truthy (query_device subscribePost)
   \<and> query_code subscribePost = Some (QStr (subscriptionKey noEnv))
   \<and> sent (responses initialState 1) = None
   \<and> thrown (handleRequest_try noEnv subscribePost 1 initialState)
       = Some (ReferenceError ''urlParsed'')
   \<and> sent (responses (handleRequest noEnv subscribePost 1 initialState) 1)
       = Some \<lparr>status = 500, hdrs = [], content = []\<rparr>
   \<and> pending (handleRequest noEnv subscribePost 1 initialState) = []
   \<and> bodyListeners (handleRequest noEnv subscribePost 1 initialState) = [(1, dev1)]
   \<and> 1 \<notin> set (destroyedSockets initialState)
   \<and> received (responses (handleRequest noEnv subscribePost 1 initialState) 1)
       = Some \<lparr>status = 500, hdrs = [], content = []\<rparr>"
proof -
  have h1: "\<not> truthy (query_ping subscribePost)"
    by (simp add: subscribePost_def)
  have h2: "truthy (query_device subscribePost)"
    by (simp add: subscribePost_def dev1_def utf16_def)
  have h3: "query_code subscribePost = Some (QStr (subscriptionKey noEnv))"
    by (simp add: subscribePost_def subscriptionKey_noEnv)
  then have h3': "pathname subscribePost = ''/subscribe'' \<longrightarrow>
      query_code subscribePost = Some (QStr (subscriptionKey noEnv))"
    by simp
  have h4: "sent (responses initialState 1) = None"
    by (simp add: initialState_def freshResponse_def)
  have fresh: "headers (responses initialState 1) = []" "pending initialState = []"
    "bodyListeners initialState = []" "1 \<notin> set (destroyedSockets initialState)"
    by (simp_all add: initialState_def freshResponse_def)
  have req: "pathname subscribePost = ''/subscribe''" "req_method subscribePost = ''POST''"
    "query_device subscribePost = Some dev1"
    by (simp_all add: subscribePost_def)
  from dispatch_always_throws [OF h1 h2 h3' h4] h1 h2 h3 h4 fresh req
  show ?thesis by simp
qed

text \<open>
  The claim as stated fails for \<^verbatim>\<open>GET /subscribe\<close> with the right key: the exception is the
  one of line 123, and line 84 is never reached.
\<close>

theorem dispatch_always_throws_counterexample:
  "thrown (handleRequest_try noEnv subscribeGet 1 initialState)
     = Some (ReferenceError ''parseFunctionResponse'')
   \<and> errorLog (handleRequest noEnv subscribeGet 1 initialState)
       = [ReferenceError ''parseFunctionResponse'']"
  by (simp add: request_defs model_defs)

text \<open>
  Claim C3: the code at the failing input \<^verbatim>\<open>POST /publish?device=dev-1\<close> with the publish
  key. With one connection held for \<^verbatim>\<open>dev-1\<close>, \<open>handleRequest\<close> throws at line 84 before
  \<open>handlePublishRequest\<close> is called: no fetch is issued, the held connection stays
  unanswered and the publisher gets a bare 500. With none held the publisher gets the
  same 500 where the claim has an acknowledgement. \<open>handlePublishRequest\<close> itself, if
  called, throws at line 130 for the undeclared \<open>deviceId\<close>.
\<close>

theorem publish_signal_fails:
  "subscriberCount (stateOf (saveSubscriber noEnv 2 dev1 initialState)) dev1 = 1
   \<and> handlePublishRequest 1 dev1 (stateOf (saveSubscriber noEnv 2 dev1 initialState))
       = Throw (ReferenceError ''deviceId'') (stateOf (saveSubscriber noEnv 2 dev1 initialState))
   \<and> errorLog (handleRequest noEnv publishPost 1
                 (stateOf (saveSubscriber noEnv 2 dev1 initialState)))
       = [ReferenceError ''urlParsed'']
   \<and> pending (handleRequest noEnv publishPost 1
                 (stateOf (saveSubscriber noEnv 2 dev1 initialState))) = []
   \<and> sent (responses (handleRequest noEnv publishPost 1
                 (stateOf (saveSubscriber noEnv 2 dev1 initialState))) 1)
       = Some \<lparr>status = 500, hdrs = [], content = []\<rparr>
   \<and> sent (responses (handleRequest noEnv publishPost 1
                 (stateOf (saveSubscriber noEnv 2 dev1 initialState))) 2)
       = None
   \<and> subscriberCount initialState dev1 = 0
   \<and> sent (responses (handleRequest noEnv publishPost 1 initialState) 1)
       = Some \<lparr>status = 500, hdrs = [], content = []\<rparr>
   \<and> received (responses (handleRequest noEnv publishPost 1
                 (stateOf (saveSubscriber noEnv 2 dev1 initialState))) 1)
       = Some \<lparr>status = 500, hdrs = [], content = []\<rparr>
   \<and> received (responses (handleRequest noEnv publishPost 1
                 (stateOf (saveSubscriber noEnv 2 dev1 initialState))) 2)
       = None
   \<and> received (responses (handleRequest noEnv publishPost 1 initialState) 1)
       = Some \<lparr>status = 500, hdrs = [], content = []\<rparr>"
proof -
  have a: "handlePublishRequest 1 dev1 (stateOf (saveSubscriber noEnv 2 dev1 initialState))
       = Throw (ReferenceError ''deviceId'') (stateOf (saveSubscriber noEnv 2 dev1 initialState))"
    by (rule handlePublishRequest_eq)
  have b: "subscriberCount (stateOf (saveSubscriber noEnv 2 dev1 initialState)) dev1 = 1
   \<and> errorLog (handleRequest noEnv publishPost 1
                 (stateOf (saveSubscriber noEnv 2 dev1 initialState)))
       = [ReferenceError ''urlParsed'']
   \<and> pending (handleRequest noEnv publishPost 1
                 (stateOf (saveSubscriber noEnv 2 dev1 initialState))) = []
   \<and> sent (responses (handleRequest noEnv publishPost 1
                 (stateOf (saveSubscriber noEnv 2 dev1 initialState))) 1)
       = Some \<lparr>status = 500, hdrs = [], content = []\<rparr>
   \<and> sent (responses (handleRequest noEnv publishPost 1
                 (stateOf (saveSubscriber noEnv 2 dev1 initialState))) 2)
       = None
   \<and> subscriberCount initialState dev1 = 0
   \<and> sent (responses (handleRequest noEnv publishPost 1 initialState) 1)
       = Some \<lparr>status = 500, hdrs = [], content = []\<rparr>
   \<and> received (responses (handleRequest noEnv publishPost 1
                 (stateOf (saveSubscriber noEnv 2 dev1 initialState))) 1)
       = Some \<lparr>status = 500, hdrs = [], content = []\<rparr>
   \<and> received (responses (handleRequest noEnv publishPost 1
                 (stateOf (saveSubscriber noEnv 2 dev1 initialState))) 2)
       = None
   \<and> received (responses (handleRequest noEnv publishPost 1 initialState) 1)
       = Some \<lparr>status = 500, hdrs = [], content = []\<rparr>"
    by (simp add: request_defs model_defs)
  from a b show ?thesis by blast
qed

text \<open>
  Claim C4: the code at the failing input \<^verbatim>\<open>GET /subscribe?device=dev-1\<close> with the
  subscription key. The fetch is issued, no callback is attached to it, and the
  requester gets a bare 500. When the fetch is fulfilled with \<^verbatim>\<open>17.2\<close> nothing is
  delivered; when it is fulfilled with \<^verbatim>\<open>{}\<close> nothing is registered.
\<close>

theorem subscribe_get_fails:
  "sent (responses (handleRequest noEnv subscribeGet 1 initialState) 1)
     = Some \<lparr>status = 500, hdrs = [], content = []\<rparr>
   \<and> errorLog (handleRequest noEnv subscribeGet 1 initialState)
       = [ReferenceError ''parseFunctionResponse'']
   \<and> pending (handleRequest noEnv subscribeGet 1 initialState) = [(PLC_GetData dev1, None)]
   \<and> sent (responses (stateOf (fetchFulfilled noEnv 0 (utf16 ''17.2'')
                          (handleRequest noEnv subscribeGet 1 initialState))) 1)
       = Some \<lparr>status = 500, hdrs = [], content = []\<rparr>
   \<and> held (stateOf (fetchFulfilled noEnv 0 (utf16 ''{}'')
               (handleRequest noEnv subscribeGet 1 initialState))) dev1 = []
   \<and> received (responses (stateOf (fetchFulfilled noEnv 0 (utf16 ''17.2'')
                          (handleRequest noEnv subscribeGet 1 initialState))) 1)
       = Some \<lparr>status = 500, hdrs = [], content = []\<rparr>"
  by (simp add: request_defs model_defs)

text \<open>
  Claim C8: the code at the failing input \<^verbatim>\<open>OPTIONS /?device=dev-1\<close>. The response is ended
  at line 66 with status 200 and the CORS header, and the block does not return as the
  blocks beside it do; line 84 then throws, the catch block sets status 500 and calls
  \<^verbatim>\<open>res.end()\<close> on the response already ended, and the requester has the 200, not a 500.
  The exception of a callback is not caught at all: for \<^verbatim>\<open>POST /subscribe\<close> with the
  identifier \<^verbatim>\<open>constructor\<close>, once the body has ended and the fetch is answered \<^verbatim>\<open>{}\<close>,
  \<open>saveSubscriber\<close> throws at line 153 inside the callback of the fetch, which has no
  \<^verbatim>\<open>catch\<close> as the publish path has, and the exception leaves the callback.
\<close>

theorem exception_not_surfaced:
  "thrown (handleRequest_try noEnv optionsRoot 1 initialState) = Some (ReferenceError ''urlParsed'')
   \<and> statusCode (responses (handleRequest noEnv optionsRoot 1 initialState) 1) = 500
   \<and> sent (responses (handleRequest noEnv optionsRoot 1 initialState) 1)
       = Some \<lparr>status = 200, hdrs = [(''Access-Control-Allow-Origin'', ''*'')], content = []\<rparr>
   \<and> received (responses (handleRequest noEnv optionsRoot 1 initialState) 1)
       = Some \<lparr>status = 200, hdrs = [(''Access-Control-Allow-Origin'', ''*'')], content = []\<rparr>
   \<and> thrown (run noEnv [Request subscribePostConstructor 1, RequestEnd 1 [],
                         FetchFulfilled 0 (utf16 ''{}'')] initialState)
       = Some (TypeError ''push'')"
  by (simp add: request_defs model_defs)

section \<open>What a request handler keeps\<close>

lemma stateOf_call [simp]: "stateOf (call m) = stateOf m"
  by (cases m) simp_all

lemma stateOf_andThen:
  "stateOf (andThen m f) = (case m of Normal t \<Rightarrow> stateOf (f t) | Return t \<Rightarrow> t | Throw err t \<Rightarrow> t)"
  by (cases m) simp_all

lemma andThen_preserves:
  assumes "P (stateOf m)" and "\<And>t. P t \<Longrightarrow> P (stateOf (f t))"
  shows "P (stateOf (andThen m f))"
  using assms by (cases m) simp_all

text \<open>
  Whatever holds of the state on entry and is kept by the operations on responses, on
  the body listeners and on the pending fetches holds when the try block is left.
\<close>

lemma handleRequest_try_preserves:
  assumes s: "P s"
    and ends: "\<And>r d t. P t \<Longrightarrow> P (endResponse r d t)"
    and stat: "\<And>r n t. P t \<Longrightarrow> P (setStatusCode r n t)"
    and head: "\<And>r n v t. P t \<Longrightarrow> P (stateOf (setHeader r n v t))"
    and body: "\<And>t x. P t \<Longrightarrow> P (t\<lparr>bodyListeners := x\<rparr>)"
    and pend: "\<And>t x. P t \<Longrightarrow> P (t\<lparr>pending := x\<rparr>)"
  shows "P (stateOf (handleRequest_try e req res s))"
proof (cases "truthy (query_ping req)")
  case True
  then show ?thesis by (simp add: handleRequest_try_def ends s)
next
  case False
  let ?preflight = "if req_method req = ''OPTIONS''
      then andThen (setHeader res ''Access-Control-Allow-Origin'' ''*'' s)
             (\<lambda>t. Normal (endResponse res [] t))
      else Normal s"
  have pre: "P (stateOf ?preflight)"
  proof (cases "req_method req = ''OPTIONS''")
    case True
    have "P (stateOf (andThen (setHeader res ''Access-Control-Allow-Origin'' ''*'' s)
             (\<lambda>t. Normal (endResponse res [] t))))"
      by (rule andThen_preserves [where P = P]) (simp_all add: s head ends)
    with True show ?thesis by simp
  next
    case False
    then show ?thesis by (simp add: s)
  qed
  have sub: "P (stateOf (call (handleSubscribeRequest req res d t)))" if "P t" for d t
    using that by (simp add: handleSubscribeRequest_eq GetDeviceData_def body pend)
  have rest: \<open>P (stateOf
      (case (if truthy (query_device req) then query_device req else None) of
         None \<Rightarrow>
           Return (endResponse res (utf16 ''{"error": "Missing 'device' query parameter"}'')
                     (setStatusCode res 400 t))
       | Some d \<Rightarrow>
           andThen
             (if pathname req = ''/subscribe''
              then if query_code req \<noteq> Some (QStr (subscriptionKey e))
                   then Return (endResponse res (utf16 ''{"error": "Invalid subscription key"}'')
                                  (setStatusCode res 403 t))
                   else call (handleSubscribeRequest req res d t)
              else Normal t)
             (\<lambda>s. case ident handleRequest_scope ''urlParsed'' req of
                Inl err \<Rightarrow> Throw err s
              | Inr urlParsed \<Rightarrow>
                  if pathname urlParsed = ''/publish'' \<and> req_method req = ''POST''
                  then if query_code req \<noteq> Some (QStr (publishKey e))
                       then Return (endResponse res (utf16 ''{"error": "Invalid code"}'')
                                      (setStatusCode res 400 s))
                       else call (handlePublishRequest res d s)
                  else Normal s)))\<close> if "P t" for t
  proof (cases "if truthy (query_device req) then query_device req else None")
    case None
    then show ?thesis by (simp add: ends stat that)
  next
    case (Some d)
    have first: \<open>P (stateOf
             (if pathname req = ''/subscribe''
              then if query_code req \<noteq> Some (QStr (subscriptionKey e))
                   then Return (endResponse res (utf16 ''{"error": "Invalid subscription key"}'')
                                  (setStatusCode res 403 t))
                   else call (handleSubscribeRequest req res d t)
              else Normal t))\<close>
      using sub [OF that] by (simp add: ends stat that)
    have \<open>P (stateOf (andThen
             (if pathname req = ''/subscribe''
              then if query_code req \<noteq> Some (QStr (subscriptionKey e))
                   then Return (endResponse res (utf16 ''{"error": "Invalid subscription key"}'')
                                  (setStatusCode res 403 t))
                   else call (handleSubscribeRequest req res d t)
              else Normal t)
             (\<lambda>s. Throw (ReferenceError ''urlParsed'') s)))\<close>
      by (rule andThen_preserves [where P = P, OF first]) simp
    with Some show ?thesis
      by (simp add: urlParsed_undeclared del: andThen.simps)
  qed
  have \<open>P (stateOf (andThen ?preflight
      (\<lambda>t. case (if truthy (query_device req) then query_device req else None) of
         None \<Rightarrow>
           Return (endResponse res (utf16 ''{"error": "Missing 'device' query parameter"}'')
                     (setStatusCode res 400 t))
       | Some d \<Rightarrow>
           andThen
             (if pathname req = ''/subscribe''
              then if query_code req \<noteq> Some (QStr (subscriptionKey e))
                   then Return (endResponse res (utf16 ''{"error": "Invalid subscription key"}'')
                                  (setStatusCode res 403 t))
                   else call (handleSubscribeRequest req res d t)
              else Normal t)
             (\<lambda>s. case ident handleRequest_scope ''urlParsed'' req of
                Inl err \<Rightarrow> Throw err s
              | Inr urlParsed \<Rightarrow>
                  if pathname urlParsed = ''/publish'' \<and> req_method req = ''POST''
                  then if query_code req \<noteq> Some (QStr (publishKey e))
                       then Return (endResponse res (utf16 ''{"error": "Invalid code"}'')
                                      (setStatusCode res 400 s))
                       else call (handlePublishRequest res d s)
                  else Normal s))))\<close>
    by (rule andThen_preserves [where P = P, OF pre]) (rule rest)
  with False show ?thesis
    by (simp add: handleRequest_try_def Let_def)
qed

lemma handleRequest_preserves:
  assumes s: "P s"
    and ends: "\<And>r d t. P t \<Longrightarrow> P (endResponse r d t)"
    and stat: "\<And>r n t. P t \<Longrightarrow> P (setStatusCode r n t)"
    and head: "\<And>r n v t. P t \<Longrightarrow> P (stateOf (setHeader r n v t))"
    and body: "\<And>t x. P t \<Longrightarrow> P (t\<lparr>bodyListeners := x\<rparr>)"
    and pend: "\<And>t x. P t \<Longrightarrow> P (t\<lparr>pending := x\<rparr>)"
    and logs: "\<And>t x. P t \<Longrightarrow> P (t\<lparr>errorLog := x\<rparr>)"
  shows "P (handleRequest e req res s)"
proof -
  have t: "P (stateOf (handleRequest_try e req res s))"
    using s ends stat head body pend by (rule handleRequest_try_preserves)
  show ?thesis
  proof (cases "handleRequest_try e req res s")
    case (Normal t)
    with t show ?thesis by (simp add: handleRequest_def)
  next
    case (Return t)
    with t show ?thesis by (simp add: handleRequest_def)
  next
    case (Throw err t')
    with t show ?thesis
      by (simp add: handleRequest_def handleRequest_catch_def ends stat logs)
  qed
qed

lemma handleRequest_socketTimeouts:
  "c \<in> set (socketTimeouts s) \<Longrightarrow> c \<in> set (socketTimeouts (handleRequest e req res s))"
  by (rule handleRequest_preserves [where P = "\<lambda>t. c \<in> set (socketTimeouts t)"])
     (simp_all add: setStatusCode_def setHeader_def)

section \<open>The timeout callback\<close>

lemma saveSubscriber_arms:
  assumes "propertyKey deviceId \<notin> set inheritedProperties"
      and "res \<notin> set (destroyedSockets s)" and "SUBSCRIBER_TIMEOUT e = None"
  shows "\<exists>t. saveSubscriber e res deviceId s = Normal t \<and> res \<in> set (socketTimeouts t)"
  using assms not_inherited [OF assms(1), of s]
  by (simp add: saveSubscriber_def socketSetTimeout_def subscriberTimeout_def Let_def)

lemma saveSubscriber_socketTimeouts:
  "c \<in> set (socketTimeouts s) \<Longrightarrow>
   c \<in> set (socketTimeouts (stateOf (saveSubscriber e res deviceId s)))"
  by (simp add: saveSubscriber_def Let_def socketSetTimeout_keeps)

lemma parseDatabaseResponse_socketTimeouts:
  "c \<in> set (socketTimeouts s) \<Longrightarrow>
   c \<in> set (socketTimeouts (stateOf (parseDatabaseResponse e res deviceId data s)))"
proof -
  assume c: "c \<in> set (socketTimeouts s)"
  have "c \<in> set (socketTimeouts (stateOf (andThen (sendDataToSubscribers deviceId data s)
                 (\<lambda>t. Normal (endResponse res data t)))))"
    by (rule andThen_preserves [where P = "\<lambda>t. c \<in> set (socketTimeouts t)"])
       (simp_all add: c)
  with c show ?thesis
    by (simp add: parseDatabaseResponse_def saveSubscriber_socketTimeouts)
qed

lemma onRequestEnd_frame [simp]:
  "responses (onRequestEnd res deviceId message s) = responses s"
  "socketTimeouts (onRequestEnd res deviceId message s) = socketTimeouts s"
  "destroyedSockets (onRequestEnd res deviceId message s) = destroyedSockets s"
  by (simp_all add: onRequestEnd_def thenCallback_if GetDeviceData_def GetSetDeviceData_def)

lemma requestEnd_fold_frame:
  "responses (foldl (\<lambda>t (res, deviceId). if res = req then onRequestEnd res deviceId message t else t)
                s ls) = responses s
   \<and> socketTimeouts (foldl (\<lambda>t (res, deviceId). if res = req then onRequestEnd res deviceId message t else t)
                s ls) = socketTimeouts s
   \<and> destroyedSockets (foldl (\<lambda>t (res, deviceId). if res = req then onRequestEnd res deviceId message t else t)
                s ls) = destroyedSockets s"
  by (induction ls arbitrary: s) (simp_all split: prod.split)

lemma requestEndEvent_frame [simp]:
  "responses (requestEndEvent req message s) = responses s"
  "socketTimeouts (requestEndEvent req message s) = socketTimeouts s"
  "destroyedSockets (requestEndEvent req message s) = destroyedSockets s"
  by (simp_all add: requestEndEvent_def requestEnd_fold_frame)

lemma closeListener_frame:
  "responses (stateOf (closeListener res deviceId s)) = responses s
   \<and> socketTimeouts (stateOf (closeListener res deviceId s)) = socketTimeouts s
   \<and> destroyedSockets (stateOf (closeListener res deviceId s)) = destroyedSockets s"
  by (simp add: closeListener_def Let_def split: option.split)

lemma runCloseListeners_frame:
  "responses (stateOf (runCloseListeners ls req s)) = responses s
   \<and> socketTimeouts (stateOf (runCloseListeners ls req s)) = socketTimeouts s
   \<and> destroyedSockets (stateOf (runCloseListeners ls req s)) = destroyedSockets s"
proof (induction ls arbitrary: s)
  case Nil
  then show ?case by simp
next
  case (Cons l ls)
  obtain res deviceId where l: "l = (res, deviceId)" by (cases l)
  show ?case
  proof (cases "res = req")
    case False
    with l Cons.IH show ?thesis by simp
  next
    case True
    show ?thesis
      using l True Cons.IH closeListener_frame [of req deviceId s]
      by (cases "closeListener req deviceId s") simp_all
  qed
qed

lemma closeEvent_frame [simp]:
  "responses (stateOf (closeEvent req s)) = responses s"
  "socketTimeouts (stateOf (closeEvent req s)) = filter (\<lambda>sock. sock \<noteq> req) (socketTimeouts s)"
  "set (destroyedSockets (stateOf (closeEvent req s))) = insert req (set (destroyedSockets s))"
  by (simp_all add: closeEvent_def Let_def runCloseListeners_frame)

lemma timeoutEvent_socketTimeouts:
  "c \<in> set (socketTimeouts s) \<Longrightarrow> c \<noteq> sock \<Longrightarrow> c \<in> set (socketTimeouts (timeoutEvent sock s))"
  by (simp add: timeoutEvent_def Let_def)

lemma gracefullyShutdown_frame [simp]:
  "socketTimeouts (stateOf (gracefullyShutdown s)) = socketTimeouts s"
  by (simp add: gracefullyShutdown_eq)

lemma fetchFulfilled_socketTimeouts:
  assumes "c \<in> set (socketTimeouts s)"
  shows "c \<in> set (socketTimeouts (stateOf (fetchFulfilled e i data s)))"
proof -
  let ?s1 = "s\<lparr>pending := take i (pending s) @ drop (Suc i) (pending s)\<rparr>"
  have "c \<in> set (socketTimeouts ?s1)" using assms by simp
  then show ?thesis
    using assms
    by (simp add: fetchFulfilled_def Let_def parseDatabaseResponse_socketTimeouts
          split: option.split callback.split)
qed

lemma step_socketTimeouts:
  assumes "c \<in> set (socketTimeouts s)" and "ev \<noteq> SocketTimeout c" and "ev \<noteq> RequestClose c"
  shows "c \<in> set (socketTimeouts (stateOf (step e ev s)))"
  using assms
  by (cases ev)
     (simp_all add: handleRequest_socketTimeouts fetchFulfilled_socketTimeouts
        timeoutEvent_socketTimeouts parseDatabaseResponse_socketTimeouts)

lemma count_list_filter_eq: "count_list (filter (\<lambda>res. res = c) xs) c = count_list xs c"
  by (induction xs) simp_all

lemma timeoutEvent_endCalls:
  "c \<notin> set (destroyedSockets s) \<Longrightarrow>
   endCalls (responses (timeoutEvent c s) c)
     = endCalls (responses s c) + count_list (socketTimeouts s) c"
  by (simp add: timeoutEvent_def Let_def endAll_endCalls count_list_filter_eq)

lemma timeoutEvent_received:
  "received (responses (timeoutEvent sock s) c) = received (responses s c)"
proof (cases "sock \<in> set (destroyedSockets s)")
  case True
  then show ?thesis by (simp add: timeoutEvent_def)
next
  case False
  let ?s0 = "s\<lparr>destroyedSockets := destroyedSockets s @ [sock]\<rparr>"
  let ?rs = "filter (\<lambda>res. res = sock) (socketTimeouts ?s0)"
  have "received (responses (foldl (\<lambda>t res. endResponse res [] t) ?s0 ?rs) c)
          = received (responses ?s0 c)"
  proof (cases "c = sock")
    case True
    then have "c \<in> set (destroyedSockets ?s0)" by simp
    then show ?thesis by (rule endAll_received_destroyed)
  next
    case False
    then have "c \<notin> set ?rs" by simp
    then show ?thesis by (rule endAll_received_other)
  qed
  with False show ?thesis by (simp add: timeoutEvent_def Let_def)
qed

text \<open>
  Claim C5, as amended. Registering a connection arms a timeout callback when its socket
  is alive, its identifier names no property every object inherits and
  \<^verbatim>\<open>SUBSCRIBER_TIMEOUT\<close> is not set. Of the other paths that resolve a connection only the
  closing of the connection disarms it, the socket being destroyed: no other event but the
  timeout of that very socket removes the callback, so delivery and shutdown leave it
  armed. When the timeout fires on a socket that is alive, \<^verbatim>\<open>res.end()\<close> is called once per
  armed callback, whether or not the connection was resolved before, and nothing more
  reaches the requester: a held connection can be ended more than once.
\<close>

theorem timeout_stays_armed:
  "(propertyKey deviceId \<notin> set inheritedProperties \<and> res \<notin> set (destroyedSockets s)
      \<and> SUBSCRIBER_TIMEOUT e = None \<longrightarrow>
        (\<exists>t. saveSubscriber e res deviceId s = Normal t \<and> res \<in> set (socketTimeouts t)))
   \<and> (c \<in> set (socketTimeouts s) \<and> ev \<noteq> SocketTimeout c \<and> ev \<noteq> RequestClose c \<longrightarrow>
        c \<in> set (socketTimeouts (stateOf (step e ev s))))
   \<and> c \<notin> set (socketTimeouts (stateOf (closeEvent c s)))
   \<and> (c \<notin> set (destroyedSockets s) \<longrightarrow>
        endCalls (responses (timeoutEvent c s) c)
          = endCalls (responses s c) + count_list (socketTimeouts s) c
        \<and> received (responses (timeoutEvent c s) c) = received (responses s c))"
  by (simp add: saveSubscriber_arms step_socketTimeouts timeoutEvent_endCalls
        timeoutEvent_received)

theorem timeout_stays_armed_witness:
  "propertyKey dev1 \<notin> set inheritedProperties
   \<and> 2 \<notin> set (destroyedSockets (stateOf (saveSubscriber noEnv 1 dev1 initialState)))
   \<and> SUBSCRIBER_TIMEOUT noEnv = None
   \<and> 2 \<in> set (socketTimeouts (stateOf (saveSubscriber noEnv 2 dev1
                  (stateOf (saveSubscriber noEnv 1 dev1 initialState)))))
   \<and> 1 \<in> set (socketTimeouts (stateOf (saveSubscriber noEnv 1 dev1 initialState)))
   \<and> SendDataToSubscribers dev1 (utf16 ''42.5'') \<noteq> SocketTimeout 1
   \<and> SendDataToSubscribers dev1 (utf16 ''42.5'') \<noteq> RequestClose 1
   \<and> 1 \<in> set (socketTimeouts (stateOf (step noEnv (SendDataToSubscribers dev1 (utf16 ''42.5''))
                  (stateOf (saveSubscriber noEnv 1 dev1 initialState)))))
   \<and> 1 \<notin> set (destroyedSockets (stateOf (saveSubscriber noEnv 1 dev1 initialState)))
   \<and> endCalls (responses (timeoutEvent 1 (stateOf (saveSubscriber noEnv 1 dev1 initialState))) 1)
       = 1"
proof -
  let ?s = "stateOf (saveSubscriber noEnv 1 dev1 initialState)"
  let ?ev = "SendDataToSubscribers dev1 (utf16 ''42.5'')"
  note n = dev1_not_inherited
  have h1: "2 \<notin> set (destroyedSockets ?s)" "1 \<notin> set (destroyedSockets ?s)"
    by (simp_all add: initialState_def)
  have h2: "SUBSCRIBER_TIMEOUT noEnv = None"
    by (simp add: noEnv_def)
  have h3: "1 \<in> set (socketTimeouts ?s)"
    by (simp add: model_defs)
  have h4: "?ev \<noteq> SocketTimeout 1" "?ev \<noteq> RequestClose 1"
    by simp_all
  have h5: "endCalls (responses ?s 1) + count_list (socketTimeouts ?s) 1 = 1"
    by (simp add: model_defs)
  from timeout_stays_armed [of dev1 2 ?s noEnv 1 ?ev] n h1 h2 h3 h4 h5
  show ?thesis by auto
qed

text \<open>
  The claim as stated fails after a delivery and after a shutdown. The connection
  registered for \<^verbatim>\<open>dev-1\<close> is answered \<^verbatim>\<open>42.5\<close>, its timeout callback is still armed, and
  when the timeout fires \<^verbatim>\<open>res.end()\<close> is called a second time on the connection already
  resolved; the callback is armed after a shutdown as well. Nor does every registration
  arm a timeout: for the identifier \<^verbatim>\<open>constructor\<close> line 153 throws, with
  \<^verbatim>\<open>SUBSCRIBER_TIMEOUT=1000\<close> line 162 throws, and on a connection that has closed nothing
  is armed.
\<close>

theorem timeout_stays_armed_counterexample:
  "received (responses (stateOf (run noEnv
           [ParseDatabaseResponse 1 dev1 (utf16 ''{}''), SendDataToSubscribers dev1 (utf16 ''42.5'')]
           initialState)) 1)
     = Some \<lparr>status = 200, hdrs = [], content = utf16 ''42.5''\<rparr>
   \<and> socketTimeouts (stateOf (run noEnv
           [ParseDatabaseResponse 1 dev1 (utf16 ''{}''), SendDataToSubscribers dev1 (utf16 ''42.5'')]
           initialState)) = [1]
   \<and> endCalls (responses (stateOf (run noEnv
           [ParseDatabaseResponse 1 dev1 (utf16 ''{}''), SendDataToSubscribers dev1 (utf16 ''42.5'')]
           initialState)) 1) = 1
   \<and> endCalls (responses (stateOf (run noEnv
           [ParseDatabaseResponse 1 dev1 (utf16 ''{}''), SendDataToSubscribers dev1 (utf16 ''42.5''),
            SocketTimeout 1]
           initialState)) 1) = 2
   \<and> socketTimeouts (stateOf (run noEnv
           [ParseDatabaseResponse 1 dev1 (utf16 ''{}''), Signal] initialState)) = [1]
   \<and> saveSubscriber noEnv 1 constructorId initialState = Throw (TypeError ''push'') initialState
   \<and> thrown (saveSubscriber (noEnv\<lparr>SUBSCRIBER_TIMEOUT := Some (utf16 ''1000'')\<rparr>) 1 dev1 initialState)
       = Some (ERR_INVALID_ARG_TYPE ''msecs'')
   \<and> socketTimeouts (stateOf (saveSubscriber (noEnv\<lparr>SUBSCRIBER_TIMEOUT := Some (utf16 ''1000'')\<rparr>)
                                 1 dev1 initialState)) = []
   \<and> socketTimeouts (stateOf (run noEnv
           [RequestClose 1, ParseDatabaseResponse 1 dev1 (utf16 ''{}'')] initialState)) = []"
  by (simp add: model_defs parseDatabaseResponse_def gracefullyShutdown_def)

section \<open>Timeout and close\<close>

lemma runCloseListeners_removes:
  assumes "\<forall>(r, d) \<in> set ls. map_of (subscribers s) (propertyKey d) \<noteq> None"
  shows "\<exists>al. runCloseListeners ls req s = Normal (s\<lparr>subscribers := al\<rparr>)
           \<and> (\<forall>k. map_of al k
                  = (if k \<in> propertyKey ` {d. (req, d) \<in> set ls}
                     then map_option (filter (\<lambda>x. x \<noteq> req)) (map_of (subscribers s) k)
                     else map_of (subscribers s) k))"
  using assms
proof (induction ls arbitrary: s)
  case Nil
  have "runCloseListeners [] req s = Normal (s\<lparr>subscribers := subscribers s\<rparr>)" by simp
  then show ?case by (intro exI [where x = "subscribers s"]) simp
next
  case (Cons l ls)
  obtain r d where l: "l = (r, d)" by (cases l)
  show ?case
  proof (cases "r = req")
    case False
    from Cons.prems have "\<forall>(r, d) \<in> set ls. map_of (subscribers s) (propertyKey d) \<noteq> None"
      by simp
    from Cons.IH [OF this] obtain al where
      al: "runCloseListeners ls req s = Normal (s\<lparr>subscribers := al\<rparr>)"
      and m: "\<forall>k. map_of al k
                  = (if k \<in> propertyKey ` {d. (req, d) \<in> set ls}
                     then map_option (filter (\<lambda>x. x \<noteq> req)) (map_of (subscribers s) k)
                     else map_of (subscribers s) k)"
      by blast
    have keys: "{d. (req, d) \<in> set (l # ls)} = {d. (req, d) \<in> set ls}"
      using False l by auto
    have run: "runCloseListeners (l # ls) req s = Normal (s\<lparr>subscribers := al\<rparr>)"
      using l False al by simp
    from run m show ?thesis
      unfolding keys by blast
  next
    case True
    from Cons.prems l obtain rs where rs: "map_of (subscribers s) (propertyKey d) = Some rs"
      by auto
    let ?s1 = "s\<lparr>subscribers := AList.update (propertyKey d) (filter (\<lambda>x. x \<noteq> req) rs)
                                  (subscribers s)\<rparr>"
    have c: "closeListener req d s = Normal ?s1"
      using rs by (simp add: closeListener_def Let_def)
    have "\<forall>(r, d) \<in> set ls. map_of (subscribers ?s1) (propertyKey d) \<noteq> None"
      using Cons.prems by (auto simp add: update_conv')
    from Cons.IH [OF this] obtain al where
      al: "runCloseListeners ls req ?s1 = Normal (?s1\<lparr>subscribers := al\<rparr>)"
      and m: "\<forall>k. map_of al k
                  = (if k \<in> propertyKey ` {d. (req, d) \<in> set ls}
                     then map_option (filter (\<lambda>x. x \<noteq> req)) (map_of (subscribers ?s1) k)
                     else map_of (subscribers ?s1) k)"
      by blast
    have keys: "propertyKey ` {d'. (req, d') \<in> set (l # ls)}
                 = insert (propertyKey d) (propertyKey ` {d'. (req, d') \<in> set ls})"
      using True l by auto
    have run: "runCloseListeners (l # ls) req s = Normal (s\<lparr>subscribers := al\<rparr>)"
      using l True c al by simp
    have "map_of al k
            = (if k \<in> insert (propertyKey d) (propertyKey ` {d'. (req, d') \<in> set ls})
               then map_option (filter (\<lambda>x. x \<noteq> req)) (map_of (subscribers s) k)
               else map_of (subscribers s) k)" for k
    proof (cases "k = propertyKey d")
      case True
      with m rs show ?thesis by (simp add: update_conv')
    next
      case False
      with m show ?thesis by (simp add: update_conv')
    qed
    then have "\<forall>k. map_of al k
                  = (if k \<in> propertyKey ` {d. (req, d) \<in> set (l # ls)}
                     then map_option (filter (\<lambda>x. x \<noteq> req)) (map_of (subscribers s) k)
                     else map_of (subscribers s) k)"
      unfolding keys by blast
    with run show ?thesis by blast
  qed
qed

lemma timeoutEvent_frame [simp]:
  "subscribers (timeoutEvent sock s) = subscribers s"
  "closeListeners (timeoutEvent sock s) = closeListeners s"
  by (simp_all add: timeoutEvent_def Let_def)



lemma listenersBacked_saveSubscriber:
  "listenersBacked s \<Longrightarrow> listenersBacked (stateOf (saveSubscriber e res deviceId s))"
proof (cases "subscribersAt s (propertyKey deviceId) = Inherited")
  case True
  assume "listenersBacked s"
  with True show ?thesis by (simp add: saveSubscriber_Inherited)
next
  case False
  assume "listenersBacked s"
  with False show ?thesis
    by (auto simp add: listenersBacked_def saveSubscriber_eq update_conv')
qed

lemma listenersBacked_sendData:
  "listenersBacked s \<Longrightarrow> listenersBacked (stateOf (sendDataToSubscribers deviceId data s))"
proof (cases "subscribersAt s (propertyKey deviceId) = Inherited")
  case True
  assume "listenersBacked s"
  with True show ?thesis by (simp add: sendData_Inherited)
next
  case False
  assume "listenersBacked s"
  with False show ?thesis
    by (auto simp add: listenersBacked_def sendData_Normal update_conv')
qed

lemma listenersBacked_endResponse:
  "listenersBacked s \<Longrightarrow> listenersBacked (endResponse r d s)"
  by (simp add: listenersBacked_def)

lemma listenersBacked_parseDatabaseResponse:
  assumes "listenersBacked s"
  shows "listenersBacked (stateOf (parseDatabaseResponse e res deviceId data s))"
proof -
  have "listenersBacked (stateOf (andThen (sendDataToSubscribers deviceId data s)
                 (\<lambda>t. Normal (endResponse res data t))))"
    by (rule andThen_preserves [where P = listenersBacked])
       (simp_all add: assms listenersBacked_sendData listenersBacked_endResponse)
  with assms show ?thesis
    by (simp add: parseDatabaseResponse_def listenersBacked_saveSubscriber)
qed

lemma closeEvent_removes:
  assumes "listenersBacked s"
  shows "\<exists>al. closeEvent req s
                 = Normal (s\<lparr>destroyedSockets := List.insert req (destroyedSockets s),
                              socketTimeouts := filter (\<lambda>sock. sock \<noteq> req) (socketTimeouts s),
                              subscribers := al\<rparr>)
           \<and> (\<forall>k. map_of al k
                  = (if k \<in> propertyKey ` {d. (req, d) \<in> set (closeListeners s)}
                     then map_option (filter (\<lambda>x. x \<noteq> req)) (map_of (subscribers s) k)
                     else map_of (subscribers s) k))"
proof -
  let ?s0 = "s\<lparr>destroyedSockets := List.insert req (destroyedSockets s),
                 socketTimeouts := filter (\<lambda>sock. sock \<noteq> req) (socketTimeouts s)\<rparr>"
  from assms have "\<forall>(r, d) \<in> set (closeListeners ?s0).
                     map_of (subscribers ?s0) (propertyKey d) \<noteq> None"
    by (simp add: listenersBacked_def)
  from runCloseListeners_removes [OF this, of req] obtain al where
    al: "runCloseListeners (closeListeners ?s0) req ?s0 = Normal (?s0\<lparr>subscribers := al\<rparr>)"
    and m: "\<forall>k. map_of al k
                  = (if k \<in> propertyKey ` {d. (req, d) \<in> set (closeListeners ?s0)}
                     then map_option (filter (\<lambda>x. x \<noteq> req)) (map_of (subscribers ?s0) k)
                     else map_of (subscribers ?s0) k)"
    by blast
  from al have "closeEvent req s = Normal (?s0\<lparr>subscribers := al\<rparr>)"
    by (simp add: closeEvent_def Let_def)
  with m show ?thesis by auto
qed

lemma closeEvent_Normal:
  assumes "listenersBacked s"
  shows "\<exists>t. closeEvent req s = Normal t \<and> listenersBacked t"
proof -
  from closeEvent_removes [OF assms, of req] obtain al where
    al: "closeEvent req s
           = Normal (s\<lparr>destroyedSockets := List.insert req (destroyedSockets s),
                        socketTimeouts := filter (\<lambda>sock. sock \<noteq> req) (socketTimeouts s),
                        subscribers := al\<rparr>)"
    and m: "\<forall>k. map_of al k
                  = (if k \<in> propertyKey ` {d. (req, d) \<in> set (closeListeners s)}
                     then map_option (filter (\<lambda>x. x \<noteq> req)) (map_of (subscribers s) k)
                     else map_of (subscribers s) k)"
    by blast
  from m have "map_of al k = None \<longleftrightarrow> map_of (subscribers s) k = None" for k
    by simp
  with assms have "listenersBacked (s\<lparr>destroyedSockets := List.insert req (destroyedSockets s),
                        socketTimeouts := filter (\<lambda>sock. sock \<noteq> req) (socketTimeouts s),
                        subscribers := al\<rparr>)"
    by (simp add: listenersBacked_def)
  with al show ?thesis by blast
qed

lemma requestEnd_fold_registry:
  "subscribers (foldl (\<lambda>t (res, deviceId). if res = req then onRequestEnd res deviceId message t else t)
                s ls) = subscribers s
   \<and> closeListeners (foldl (\<lambda>t (res, deviceId). if res = req then onRequestEnd res deviceId message t else t)
                s ls) = closeListeners s"
proof (induction ls arbitrary: s)
  case Nil
  then show ?case by simp
next
  case (Cons l ls)
  have "subscribers (onRequestEnd res deviceId message s) = subscribers s
      \<and> closeListeners (onRequestEnd res deviceId message s) = closeListeners s" for res deviceId
    by (simp add: onRequestEnd_def thenCallback_if GetDeviceData_def GetSetDeviceData_def)
  with Cons.IH show ?case by (simp split: prod.split)
qed

lemma listenersBacked_requestEndEvent:
  "listenersBacked s \<Longrightarrow> listenersBacked (requestEndEvent req message s)"
  by (simp add: listenersBacked_def requestEndEvent_def requestEnd_fold_registry)

lemma listenersBacked_timeoutEvent:
  "listenersBacked s \<Longrightarrow> listenersBacked (timeoutEvent sock s)"
  by (simp add: listenersBacked_def)

lemma listenersBacked_gracefullyShutdown:
  "listenersBacked s \<Longrightarrow> listenersBacked (stateOf (gracefullyShutdown s))"
  by (simp add: gracefullyShutdown_eq listenersBacked_def)

lemma listenersBacked_fetchFulfilled:
  assumes "listenersBacked s"
  shows "listenersBacked (stateOf (fetchFulfilled e i data s))"
proof -
  let ?s1 = "s\<lparr>pending := take i (pending s) @ drop (Suc i) (pending s)\<rparr>"
  have "listenersBacked ?s1" using assms by (simp add: listenersBacked_def)
  then show ?thesis
    using assms
    by (simp add: fetchFulfilled_def Let_def listenersBacked_parseDatabaseResponse
          listenersBacked_sendData split: option.split callback.split)
qed

lemma listenersBacked_handleRequest:
  "listenersBacked s \<Longrightarrow> listenersBacked (handleRequest e req res s)"
  by (rule handleRequest_preserves [where P = listenersBacked])
     (simp_all add: listenersBacked_def setStatusCode_def setHeader_def)

lemma step_listenersBacked:
  assumes "listenersBacked s"
  shows "listenersBacked (stateOf (step e ev s))"
proof (cases ev)
  case (RequestClose req)
  from closeEvent_Normal [OF assms, of req] show ?thesis
    using RequestClose by auto
qed (simp_all add: assms listenersBacked_handleRequest listenersBacked_requestEndEvent
       listenersBacked_fetchFulfilled listenersBacked_timeoutEvent
       listenersBacked_gracefullyShutdown listenersBacked_parseDatabaseResponse
       listenersBacked_sendData)

lemma run_listenersBacked:
  assumes "listenersBacked s"
  shows "listenersBacked (stateOf (run e evs s))"
  using assms
proof (induction evs arbitrary: s)
  case Nil
  then show ?case by simp
next
  case (Cons ev evs)
  from Cons.prems have st: "listenersBacked (stateOf (step e ev s))"
    by (rule step_listenersBacked)
  show ?case
  proof (cases "step e ev s")
    case (Normal t)
    with st Cons.IH [of t] show ?thesis by simp
  next
    case (Return t)
    with st Cons.IH [of t] show ?thesis by simp
  next
    case (Throw err t)
    with st show ?thesis by simp
  qed
qed




end
